theory Spec2Isabelle
  imports Main "HOL-Library.Word"
begin

section \<open>Mission Control hub: the puzzle progression state machine of main.cpp\<close>

text \<open>
  The hub keeps six file-scope variables and changes them only inside the functions
  modelled below. Each function takes the variables as a record and returns the record
  it leaves behind, together with the lines it prints on the serial port. The clock read
  by \<open>millis()\<close> is an argument of the two functions that call it.

  Integer types are those of the ESP32 Arduino core the program is built for
  (\<open>WiFi.h\<close>, \<open>WebServer.h\<close>): \<open>unsigned long\<close> and \<open>long\<close> have 32 bits,
  \<open>uint8_t\<close> has 8.
\<close>

subsection \<open>Constants and data\<close>

type_synonym uint8 = "8 word"
type_synonym ulong = "32 word"

definition SEQUENCE_ERROR_FLASH_MS :: ulong where
  "SEQUENCE_ERROR_FLASH_MS = 2500"

definition BUTTON_SEQUENCE :: "uint8 list" where
  "BUTTON_SEQUENCE = [4, 1, 5, 1, 3, 5, 4, 2, 1, 3, 2, 4, 5, 3, 1]"

definition BUTTON_SEQUENCE_LENGTH :: nat where
  "BUTTON_SEQUENCE_LENGTH = length BUTTON_SEQUENCE"

datatype GameState = Puzzle1 | Puzzle2 | Puzzle3 | MissionComplete

datatype ConduitConfirmResult = Accepted | AlreadyConfirmed | WrongState

text \<open>
  The globals. \<open>nextSequenceIndex\<close> is a \<open>size_t\<close>; its only increment sits behind
  the array read at that index, which the model refuses from the array's length on, so the
  counter never comes near the width of the type and is a natural number here.
\<close>

record game =
  currentState :: GameState
  nextSequenceIndex :: nat
  latchTriggered :: bool
  conduitsVerified :: bool
  sequenceError :: bool
  sequenceErrorExpiresAt :: ulong

text \<open>The initialisers of the globals.\<close>

definition initialGame :: game where
  "initialGame = \<lparr> currentState = Puzzle1, nextSequenceIndex = 0, latchTriggered = False,
     conduitsVerified = False, sequenceError = False, sequenceErrorExpiresAt = 0 \<rparr>"

text \<open>
  One constructor for each line the modelled functions print with \<open>Serial.println\<close> or
  \<open>Serial.printf\<close>. \<open>LogLatch\<close> is the line of \<open>triggerLatch\<close>, which stands for the
  servo or solenoid releasing the box: it is the observable firing of the latch.
\<close>

datatype serial_line =
    LogLatch
  | LogReset
  | LogMissionComplete
  | LogAlreadyComplete
  | LogAdvanced2
  | LogAdvanced3
  | LogInvalidTransition
  | LogRemoteA
  | LogRemoteB
  | LogRemoteC
  | LogRemoteD
  | LogRemoteUnknown
  | LogButtonIgnored
  | LogButtonReceived uint8
  | LogButtonProgress nat nat
  | LogButtonIncorrect uint8
  | LogConduitsIgnored
  | LogConduitsAlready
  | LogConduitsConfirmed

subsection \<open>The clock\<close>

text \<open>
  \<open>millis()\<close> is the number of milliseconds since boot in an \<open>unsigned long\<close>: the true
  elapsed time modulo \<open>2 ^ 32\<close>.
\<close>

definition millis :: "nat \<Rightarrow> ulong" where
  "millis t = word_of_nat t"

subsection \<open>Latch and sequence helpers\<close>

definition triggerLatch :: "game \<Rightarrow> serial_line list \<times> game" where
  "triggerLatch g =
     (if latchTriggered g then ([], g)
      else ([LogLatch], g\<lparr>latchTriggered := True\<rparr>))"

definition resetSequenceTracking :: "game \<Rightarrow> game" where
  "resetSequenceTracking g = g\<lparr>nextSequenceIndex := 0\<rparr>"

definition clearSequenceError :: "game \<Rightarrow> game" where
  "clearSequenceError g = g\<lparr>sequenceError := False, sequenceErrorExpiresAt := 0\<rparr>"

definition markSequenceError :: "ulong \<Rightarrow> game \<Rightarrow> game" where
  "markSequenceError now g =
     g\<lparr>sequenceError := True, sequenceErrorExpiresAt := now + SEQUENCE_ERROR_FLASH_MS\<rparr>"

text \<open>
  \<open>(long)(millis() - sequenceErrorExpiresAt) >= 0\<close>: the subtraction wraps in 32 bits and
  the difference is read as a signed number.
\<close>

definition isSequenceErrorActive :: "ulong \<Rightarrow> game \<Rightarrow> bool \<times> game" where
  "isSequenceErrorActive now g =
     (if \<not> sequenceError g then (False, g)
      else if 0 \<le> sint (now - sequenceErrorExpiresAt g) then (False, clearSequenceError g)
      else (True, g))"

subsection \<open>Game operations\<close>

definition resetGame :: "game \<Rightarrow> serial_line list \<times> game" where
  "resetGame g =
     ([LogReset],
      resetSequenceTracking (clearSequenceError
        (g\<lparr>currentState := Puzzle1, latchTriggered := False, conduitsVerified := False\<rparr>)))"

definition completeMission :: "game \<Rightarrow> serial_line list \<times> game" where
  "completeMission g =
     (let g1 = clearSequenceError (g\<lparr>currentState := MissionComplete\<rparr>);
          (out, g2) = triggerLatch g1
      in (out @ [LogMissionComplete], g2))"

definition advanceToPuzzle :: "GameState \<Rightarrow> game \<Rightarrow> serial_line list \<times> game" where
  "advanceToPuzzle target g =
     (if currentState g = MissionComplete then ([LogAlreadyComplete], g)
      else if target = Puzzle2 \<and> currentState g = Puzzle1 then
        ([LogAdvanced2],
         clearSequenceError (g\<lparr>currentState := Puzzle2, conduitsVerified := False\<rparr>))
      else if target = Puzzle3 \<and> currentState g = Puzzle2 then
        ([LogAdvanced3],
         resetSequenceTracking (clearSequenceError (g\<lparr>currentState := Puzzle3\<rparr>)))
      else if target = MissionComplete \<and> currentState g = Puzzle3 then completeMission g
      else ([LogInvalidTransition], g))"

definition handleRemoteButton :: "char \<Rightarrow> game \<Rightarrow> serial_line list \<times> game" where
  "handleRemoteButton button g =
     (if button = CHR ''A'' \<or> button = CHR ''a'' then
        (let (out, g') = advanceToPuzzle Puzzle2 g in (LogRemoteA # out, g'))
      else if button = CHR ''B'' \<or> button = CHR ''b'' then
        (let (out, g') = advanceToPuzzle Puzzle3 g in (LogRemoteB # out, g'))
      else if button = CHR ''C'' \<or> button = CHR ''c'' then
        (let (out, g') = resetGame g in (LogRemoteC # out, g'))
      else if button = CHR ''D'' \<or> button = CHR ''d'' then
        (let (out, g') = completeMission g in (LogRemoteD # out, g'))
      else ([LogRemoteUnknown], g))"

text \<open>
  \<open>registerButtonPress\<close> reads \<open>BUTTON_SEQUENCE[nextSequenceIndex]\<close> with no check of
  the index. A read past the end of the array has no defined result in C++: the model
  returns \<open>None\<close> there.
\<close>

definition registerButtonPress ::
    "uint8 \<Rightarrow> ulong \<Rightarrow> game \<Rightarrow> (serial_line list \<times> game) option" where
  "registerButtonPress buttonId now g =
     (if currentState g \<noteq> Puzzle3 then Some ([LogButtonIgnored], g)
      else if \<not> nextSequenceIndex g < length BUTTON_SEQUENCE then None
      else
        (let expected = BUTTON_SEQUENCE ! nextSequenceIndex g in
         if buttonId = expected then
           (let g1 = clearSequenceError g;
                g2 = g1\<lparr>nextSequenceIndex := nextSequenceIndex g1 + 1\<rparr>;
                out = [LogButtonReceived buttonId,
                       LogButtonProgress (nextSequenceIndex g2) BUTTON_SEQUENCE_LENGTH]
            in if BUTTON_SEQUENCE_LENGTH \<le> nextSequenceIndex g2 then
                 (let (out', g3) = completeMission g2 in Some (out @ out', g3))
               else Some (out, g2))
         else
           Some ([LogButtonReceived buttonId, LogButtonIncorrect expected],
                 resetSequenceTracking (markSequenceError now g))))"

definition confirmConduitsAligned ::
    "game \<Rightarrow> ConduitConfirmResult \<times> serial_line list \<times> game" where
  "confirmConduitsAligned g =
     (if currentState g \<noteq> Puzzle2 then (WrongState, [LogConduitsIgnored], g)
      else if conduitsVerified g then (AlreadyConfirmed, [LogConduitsAlready], g)
      else (Accepted, [LogConduitsConfirmed], g\<lparr>conduitsVerified := True\<rparr>))"

subsection \<open>Events and reachable states\<close>

text \<open>
  The calls that reach the game from outside: the four entry points used by the HTTP
  handlers (remote button, puzzle button, conduit confirmation, and the display poll,
  which reads the error flag through \<open>isSequenceErrorActive\<close>), and the three game
  operations called on their own. The display polls the flag only in Puzzle3 and the
  puzzle-button handler passes only identifiers 1 to 5; the events here allow the poll in
  every stage and every 8-bit identifier, so the reachable states below include all
  those of the program.
\<close>

datatype event =
    Remote char
  | PuzzleButton uint8 ulong
  | ConfirmConduits
  | Poll ulong
  | Advance GameState
  | Complete
  | Reset

fun step :: "event \<Rightarrow> game \<Rightarrow> (serial_line list \<times> game) option" where
  "step (Remote c) g = Some (handleRemoteButton c g)"
| "step (PuzzleButton b now) g = registerButtonPress b now g"
| "step ConfirmConduits g = Some (snd (confirmConduitsAligned g))"
| "step (Poll now) g = Some ([], snd (isSequenceErrorActive now g))"
| "step (Advance target) g = Some (advanceToPuzzle target g)"
| "step Complete g = Some (completeMission g)"
| "step Reset g = Some (resetGame g)"

text \<open>A list of events, one after the other, with everything printed on the way.\<close>

fun run :: "event list \<Rightarrow> game \<Rightarrow> (serial_line list \<times> game) option" where
  "run [] g = Some ([], g)"
| "run (e # es) g =
     (case step e g of
        None \<Rightarrow> None
      | Some (out, g') \<Rightarrow>
          (case run es g' of
             None \<Rightarrow> None
           | Some (out', g'') \<Rightarrow> Some (out @ out', g'')))"

inductive reachable :: "game \<Rightarrow> bool" where
  reachable_init: "reachable initialGame"
| reachable_step: "reachable g \<Longrightarrow> step e g = Some (out, g') \<Longrightarrow> reachable g'"

text \<open>The events that reset the game: \<open>resetGame\<close> itself and remote button C.\<close>

fun isReset :: "event \<Rightarrow> bool" where
  "isReset Reset = True"
| "isReset (Remote c) = (c = CHR ''C'' \<or> c = CHR ''c'')"
| "isReset _ = False"

subsection \<open>Properties of states and steps\<close>

text \<open>
  A step from \<open>g\<close> with result \<open>r\<close> treats the latch properly: it prints the latch
  line once if it turns \<open>latchTriggered\<close> on and not at all otherwise, and it never
  turns the flag off.
\<close>

definition latch_step :: "game \<Rightarrow> serial_line list \<times> game \<Rightarrow> bool" where
  "latch_step g r =
     (count_list (fst r) LogLatch =
        (if latchTriggered (snd r) \<and> \<not> latchTriggered g then 1 else 0)
      \<and> (latchTriggered g \<longrightarrow> latchTriggered (snd r)))"

text \<open>The conduit flag is on only from Puzzle2 on.\<close>

definition conduitsInv :: "game \<Rightarrow> bool" where
  "conduitsInv g = (conduitsVerified g \<longrightarrow> currentState g \<noteq> Puzzle1)"

text \<open>In Puzzle3 the index is inside the pattern.\<close>

definition indexInv :: "game \<Rightarrow> bool" where
  "indexInv g = (currentState g = Puzzle3 \<longrightarrow> nextSequenceIndex g < BUTTON_SEQUENCE_LENGTH)"

text \<open>
  What a step from \<open>g\<close> to \<open>g'\<close> does to the conduit flag: it keeps \<open>conduitsInv\<close>,
  it enters Puzzle2 only with the flag off, and it turns the flag on only inside Puzzle2.
\<close>

definition conduits_step :: "game \<Rightarrow> game \<Rightarrow> bool" where
  "conduits_step g g' =
     ((conduitsInv g \<longrightarrow> conduitsInv g')
      \<and> (currentState g \<noteq> Puzzle2 \<and> currentState g' = Puzzle2 \<longrightarrow> \<not> conduitsVerified g')
      \<and> (\<not> conduitsVerified g \<and> conduitsVerified g' \<longrightarrow>
           currentState g = Puzzle2 \<and> currentState g' = Puzzle2))"

text \<open>
  What a step does to the index: it keeps \<open>indexInv\<close> and it enters Puzzle3 only with
  the index at 0.
\<close>

definition index_step :: "game \<Rightarrow> game \<Rightarrow> bool" where
  "index_step g g' =
     ((indexInv g \<longrightarrow> indexInv g')
      \<and> (currentState g \<noteq> Puzzle3 \<and> currentState g' = Puzzle3 \<longrightarrow> nextSequenceIndex g' = 0))"

subsection \<open>Auxiliary facts\<close>

lemmas helper_defs =
  triggerLatch_def resetSequenceTracking_def clearSequenceError_def markSequenceError_def

lemma length_BUTTON_SEQUENCE: "length BUTTON_SEQUENCE = 15"
  by (simp add: BUTTON_SEQUENCE_def)

lemma snd_resetGame:
  "snd (resetGame g) =
     \<lparr> currentState = Puzzle1, nextSequenceIndex = 0, latchTriggered = False,
       conduitsVerified = False, sequenceError = False, sequenceErrorExpiresAt = 0 \<rparr>"
  by (simp add: resetGame_def helper_defs)

lemma completeMission_eq:
  "completeMission g =
     ((if latchTriggered g then [] else [LogLatch]) @ [LogMissionComplete],
      g\<lparr>currentState := MissionComplete, latchTriggered := True,
        sequenceError := False, sequenceErrorExpiresAt := 0\<rparr>)"
  by (simp add: completeMission_def helper_defs)

lemma advanceToPuzzle_eq:
  "advanceToPuzzle target g =
     (if currentState g = Puzzle1 \<and> target = Puzzle2 then
        ([LogAdvanced2],
         g\<lparr>currentState := Puzzle2, conduitsVerified := False,
           sequenceError := False, sequenceErrorExpiresAt := 0\<rparr>)
      else if currentState g = Puzzle2 \<and> target = Puzzle3 then
        ([LogAdvanced3],
         g\<lparr>currentState := Puzzle3, nextSequenceIndex := 0,
           sequenceError := False, sequenceErrorExpiresAt := 0\<rparr>)
      else if currentState g = Puzzle3 \<and> target = MissionComplete then completeMission g
      else if currentState g = MissionComplete then ([LogAlreadyComplete], g)
      else ([LogInvalidTransition], g))"
  by (auto simp add: advanceToPuzzle_def helper_defs)

lemma handleRemoteButton_eq:
  "handleRemoteButton c g =
     (if c = CHR ''A'' \<or> c = CHR ''a'' then
        (LogRemoteA # fst (advanceToPuzzle Puzzle2 g), snd (advanceToPuzzle Puzzle2 g))
      else if c = CHR ''B'' \<or> c = CHR ''b'' then
        (LogRemoteB # fst (advanceToPuzzle Puzzle3 g), snd (advanceToPuzzle Puzzle3 g))
      else if c = CHR ''C'' \<or> c = CHR ''c'' then
        (LogRemoteC # fst (resetGame g), snd (resetGame g))
      else if c = CHR ''D'' \<or> c = CHR ''d'' then
        (LogRemoteD # fst (completeMission g), snd (completeMission g))
      else ([LogRemoteUnknown], g))"
  by (simp add: handleRemoteButton_def split_beta)

lemma registerButtonPress_eq:
  "registerButtonPress buttonId now g =
     (if currentState g \<noteq> Puzzle3 then Some ([LogButtonIgnored], g)
      else if 15 \<le> nextSequenceIndex g then None
      else if buttonId \<noteq> BUTTON_SEQUENCE ! nextSequenceIndex g then
        Some ([LogButtonReceived buttonId,
               LogButtonIncorrect (BUTTON_SEQUENCE ! nextSequenceIndex g)],
              g\<lparr>nextSequenceIndex := 0, sequenceError := True,
                sequenceErrorExpiresAt := now + SEQUENCE_ERROR_FLASH_MS\<rparr>)
      else if nextSequenceIndex g < 14 then
        Some ([LogButtonReceived buttonId, LogButtonProgress (nextSequenceIndex g + 1) 15],
              g\<lparr>nextSequenceIndex := nextSequenceIndex g + 1, sequenceError := False,
                sequenceErrorExpiresAt := 0\<rparr>)
      else
        Some ([LogButtonReceived buttonId, LogButtonProgress 15 15]
                @ (if latchTriggered g then [] else [LogLatch]) @ [LogMissionComplete],
              g\<lparr>currentState := MissionComplete, nextSequenceIndex := 15,
                latchTriggered := True, sequenceError := False,
                sequenceErrorExpiresAt := 0\<rparr>))"
  by (auto simp add: registerButtonPress_def completeMission_eq helper_defs Let_def
      BUTTON_SEQUENCE_LENGTH_def length_BUTTON_SEQUENCE)

lemma latch_step_completeMission: "latch_step g (completeMission g)"
  by (simp add: latch_step_def completeMission_eq)

lemma latch_step_advanceToPuzzle: "latch_step g (advanceToPuzzle target g)"
  by (simp add: latch_step_def advanceToPuzzle_eq completeMission_eq)

lemma latch_step_same: "latch_step g (out, g) = (LogLatch \<notin> set out)"
  by (simp add: latch_step_def count_list_0_iff)

lemma latch_step_Cons:
  "x \<noteq> LogLatch \<Longrightarrow> latch_step g (x # fst r, snd r) = latch_step g r"
  by (simp add: latch_step_def)

lemma latch_step_handleRemoteButton:
  "\<not> isReset (Remote c) \<Longrightarrow> latch_step g (handleRemoteButton c g)"
  by (simp add: handleRemoteButton_eq latch_step_Cons latch_step_same
      latch_step_advanceToPuzzle latch_step_completeMission)

lemma latch_step_registerButtonPress:
  "registerButtonPress b now g = Some r \<Longrightarrow> latch_step g r"
  by (auto simp add: registerButtonPress_eq latch_step_def split: if_splits)

lemma latch_step_confirmConduitsAligned: "latch_step g (snd (confirmConduitsAligned g))"
  by (simp add: latch_step_def confirmConduitsAligned_def)

lemma latch_step_isSequenceErrorActive: "latch_step g ([], snd (isSequenceErrorActive now g))"
  by (simp add: latch_step_def isSequenceErrorActive_def clearSequenceError_def)

lemma step_latch:
  assumes "\<not> isReset e" and "step e g = Some r"
  shows "latch_step g r"
  using assms
  by (cases e)
    (auto simp add: latch_step_handleRemoteButton latch_step_registerButtonPress
      latch_step_confirmConduitsAligned latch_step_isSequenceErrorActive
      latch_step_advanceToPuzzle latch_step_completeMission)



lemma run_Cons_Some:
  assumes "run (e # es) g = Some r"
  obtains o1 g1 o2 g2 where "step e g = Some (o1, g1)" and "run es g1 = Some (o2, g2)"
    and "r = (o1 @ o2, g2)"
proof (cases "step e g")
  case None
  with assms show ?thesis by simp
next
  case (Some a)
  obtain o1 g1 where a: "a = (o1, g1)" by (cases a)
  show ?thesis
  proof (cases "run es g1")
    case None
    with assms Some a show ?thesis by simp
  next
    case (Some b)
    obtain o2 g2 where b: "b = (o2, g2)" by (cases b)
    from assms \<open>step e g = Some a\<close> a Some b have "r = (o1 @ o2, g2)" by simp
    with \<open>step e g = Some a\<close> a Some b that show ?thesis by simp
  qed
qed

lemma latch_step_trans:
  assumes "latch_step g (o1, g1)" and "latch_step g1 (o2, g2)"
  shows "latch_step g (o1 @ o2, g2)"
  using assms
  by (cases "latchTriggered g"; cases "latchTriggered g1"; cases "latchTriggered g2")
    (simp_all add: latch_step_def)

lemma run_latch:
  assumes "\<forall>e \<in> set es. \<not> isReset e" and "run es g = Some r"
  shows "latch_step g r"
  using assms
proof (induction es arbitrary: g r)
  case Nil
  then show ?case by (auto simp add: latch_step_def)
next
  case (Cons e es)
  from Cons.prems(2) obtain o1 g1 o2 g2 where
    s: "step e g = Some (o1, g1)" and r: "run es g1 = Some (o2, g2)" and o: "r = (o1 @ o2, g2)"
    by (rule run_Cons_Some)
  from Cons.prems(1) have ne: "\<not> isReset e" and nes: "\<forall>e \<in> set es. \<not> isReset e"
    by simp_all
  show ?case
    unfolding o by (rule latch_step_trans [OF step_latch [OF ne s] Cons.IH [OF nes r]])
qed

text \<open>Only the conduit confirmation can turn \<open>conduitsVerified\<close> on.\<close>

lemma conduits_advanceToPuzzle:
  "conduitsVerified (snd (advanceToPuzzle target g)) \<Longrightarrow> conduitsVerified g"
  by (simp add: advanceToPuzzle_eq completeMission_eq split: if_splits)

lemma conduits_handleRemoteButton:
  "conduitsVerified (snd (handleRemoteButton c g)) \<Longrightarrow> conduitsVerified g"
  by (simp add: handleRemoteButton_eq snd_resetGame completeMission_eq split: if_splits)
    (erule conduits_advanceToPuzzle)+

lemma conduits_registerButtonPress:
  "registerButtonPress b now g = Some r \<Longrightarrow> conduitsVerified (snd r) \<Longrightarrow> conduitsVerified g"
  by (auto simp add: registerButtonPress_eq split: if_splits)

lemma conduits_isSequenceErrorActive:
  "conduitsVerified (snd (isSequenceErrorActive now g)) = conduitsVerified g"
  by (simp add: isSequenceErrorActive_def clearSequenceError_def)

lemma step_conduits_only_confirm:
  assumes "e \<noteq> ConfirmConduits" and "step e g = Some r" and "conduitsVerified (snd r)"
  shows "conduitsVerified g"
  using assms
  by (cases e)
    (auto simp add: conduits_isSequenceErrorActive completeMission_eq snd_resetGame
      dest: conduits_handleRemoteButton conduits_registerButtonPress conduits_advanceToPuzzle)

lemma run_reachable:
  assumes "reachable g" and "run es g = Some r"
  shows "reachable (snd r)"
  using assms
proof (induction es arbitrary: g r)
  case Nil
  then show ?case by auto
next
  case (Cons e es)
  from Cons.prems(2) obtain o1 g1 o2 g2 where
    s: "step e g = Some (o1, g1)" and r: "run es g1 = Some (o2, g2)" and o: "r = (o1 @ o2, g2)"
    by (rule run_Cons_Some)
  from reachable_step [OF Cons.prems(1) s] have "reachable g1" .
  from Cons.IH [OF this r] show ?case by (simp add: o)
qed

text \<open>Every step treats the conduit flag as \<open>conduits_step\<close> says.\<close>

lemma conduits_step_refl: "conduits_step g g"
  by (simp add: conduits_step_def)

lemma conduits_step_completeMission: "conduits_step g (snd (completeMission g))"
  by (simp add: conduits_step_def conduitsInv_def completeMission_eq)

lemma conduits_step_resetGame: "conduits_step g (snd (resetGame g))"
  by (simp add: conduits_step_def conduitsInv_def snd_resetGame)

lemma conduits_step_advanceToPuzzle: "conduits_step g (snd (advanceToPuzzle target g))"
  by (simp add: advanceToPuzzle_eq conduits_step_completeMission conduits_step_refl)
    (simp add: conduits_step_def conduitsInv_def)

lemma conduits_step_handleRemoteButton: "conduits_step g (snd (handleRemoteButton c g))"
  by (simp add: handleRemoteButton_eq conduits_step_advanceToPuzzle
      conduits_step_completeMission conduits_step_resetGame conduits_step_refl)

lemma conduits_step_registerButtonPress:
  "registerButtonPress b now g = Some r \<Longrightarrow> conduits_step g (snd r)"
  by (auto simp add: registerButtonPress_eq conduits_step_def conduitsInv_def
      split: if_splits)

lemma conduits_step_confirmConduitsAligned:
  "conduits_step g (snd (snd (confirmConduitsAligned g)))"
  by (simp add: conduits_step_def conduitsInv_def confirmConduitsAligned_def)

lemma conduits_step_isSequenceErrorActive:
  "conduits_step g (snd (isSequenceErrorActive now g))"
  by (simp add: conduits_step_def conduitsInv_def isSequenceErrorActive_def
      clearSequenceError_def)

lemma step_conduits:
  assumes "step e g = Some r"
  shows "conduits_step g (snd r)"
  using assms
  by (cases e)
    (auto simp add: conduits_step_handleRemoteButton conduits_step_registerButtonPress
      conduits_step_confirmConduitsAligned conduits_step_isSequenceErrorActive
      conduits_step_advanceToPuzzle conduits_step_completeMission conduits_step_resetGame)

lemma reachable_conduitsInv: "reachable g \<Longrightarrow> conduitsInv g"
proof (induction rule: reachable.induct)
  case reachable_init
  show ?case by (simp add: conduitsInv_def initialGame_def)
next
  case (reachable_step g e out g')
  from step_conduits [OF reachable_step.hyps(2)] reachable_step.IH
  show ?case by (simp add: conduits_step_def)
qed

text \<open>Every step treats the index as \<open>index_step\<close> says.\<close>

lemma index_step_refl: "index_step g g"
  by (simp add: index_step_def)

lemma index_step_completeMission: "index_step g (snd (completeMission g))"
  by (simp add: index_step_def indexInv_def completeMission_eq)

lemma index_step_resetGame: "index_step g (snd (resetGame g))"
  by (simp add: index_step_def indexInv_def snd_resetGame)

lemma index_step_advanceToPuzzle: "index_step g (snd (advanceToPuzzle target g))"
  by (simp add: advanceToPuzzle_eq index_step_completeMission index_step_refl)
    (simp add: index_step_def indexInv_def BUTTON_SEQUENCE_LENGTH_def length_BUTTON_SEQUENCE)

lemma index_step_handleRemoteButton: "index_step g (snd (handleRemoteButton c g))"
  by (simp add: handleRemoteButton_eq index_step_advanceToPuzzle
      index_step_completeMission index_step_resetGame index_step_refl)

lemma index_step_registerButtonPress:
  "registerButtonPress b now g = Some r \<Longrightarrow> index_step g (snd r)"
  by (auto simp add: registerButtonPress_eq index_step_def indexInv_def
      BUTTON_SEQUENCE_LENGTH_def length_BUTTON_SEQUENCE split: if_splits)

lemma index_step_confirmConduitsAligned:
  "index_step g (snd (snd (confirmConduitsAligned g)))"
  by (simp add: index_step_def indexInv_def confirmConduitsAligned_def)

lemma index_step_isSequenceErrorActive:
  "index_step g (snd (isSequenceErrorActive now g))"
  by (simp add: index_step_def indexInv_def isSequenceErrorActive_def clearSequenceError_def)

lemma step_index:
  assumes "step e g = Some r"
  shows "index_step g (snd r)"
  using assms
  by (cases e)
    (auto simp add: index_step_handleRemoteButton index_step_registerButtonPress
      index_step_confirmConduitsAligned index_step_isSequenceErrorActive
      index_step_advanceToPuzzle index_step_completeMission index_step_resetGame)

lemma reachable_indexInv: "reachable g \<Longrightarrow> indexInv g"
proof (induction rule: reachable.induct)
  case reachable_init
  show ?case by (simp add: indexInv_def initialGame_def)
next
  case (reachable_step g e out g')
  from step_index [OF reachable_step.hyps(2)] reachable_step.IH
  show ?case by (simp add: index_step_def)
qed

text \<open>Signed reading of a clock difference that fits in 32 bits.\<close>

lemma sint_word_of_int_32:
  "- (2 ^ 31) \<le> k \<Longrightarrow> k < 2 ^ 31 \<Longrightarrow> sint (word_of_int k :: 32 word) = k"
  by (simp add: sint_sbintrunc' signed_take_bit_int_eq_self)

lemma sint_millis_diff:
  assumes "- (2 ^ 31) \<le> int t - int e" and "int t - int e < 2 ^ 31"
  shows "sint (millis t - millis e) = int t - int e"
proof -
  have eq: "millis t - millis e = (word_of_int (int t - int e) :: 32 word)"
    by (simp add: millis_def)
  show ?thesis
    unfolding eq by (rule sint_word_of_int_32) fact+
qed

lemma millis_add_flash: "millis t + SEQUENCE_ERROR_FLASH_MS = millis (t + 2500)"
  by (simp add: millis_def SEQUENCE_ERROR_FLASH_MS_def)

text \<open>A correct press below the last position: the index moves on by one.\<close>

lemma registerButtonPress_correct:
  assumes "currentState g = Puzzle3" and "nextSequenceIndex g < 14"
  shows "registerButtonPress (BUTTON_SEQUENCE ! nextSequenceIndex g) now g =
           Some ([LogButtonReceived (BUTTON_SEQUENCE ! nextSequenceIndex g),
                  LogButtonProgress (nextSequenceIndex g + 1) 15],
                 g\<lparr>nextSequenceIndex := nextSequenceIndex g + 1, sequenceError := False,
                   sequenceErrorExpiresAt := 0\<rparr>)"
  using assms by (simp add: registerButtonPress_eq)

lemma registerButtonPress_last:
  assumes "currentState g = Puzzle3" and "nextSequenceIndex g = 14"
  shows "registerButtonPress (BUTTON_SEQUENCE ! 14) now g =
           Some ([LogButtonReceived (BUTTON_SEQUENCE ! 14), LogButtonProgress 15 15]
                   @ fst (completeMission
                       (g\<lparr>nextSequenceIndex := 15, sequenceError := False,
                          sequenceErrorExpiresAt := 0\<rparr>)),
                 g\<lparr>currentState := MissionComplete, nextSequenceIndex := 15,
                   latchTriggered := True, sequenceError := False,
                   sequenceErrorExpiresAt := 0\<rparr>)"
  using assms by (simp add: registerButtonPress_eq completeMission_eq)

lemma run_append:
  "run (es @ es') g =
     (case run es g of
        None \<Rightarrow> None
      | Some (out, g') \<Rightarrow>
          (case run es' g' of
             None \<Rightarrow> None
           | Some (out', g'') \<Rightarrow> Some (out @ out', g'')))"
  by (induction es arbitrary: g) (auto split: option.splits)

lemma run_snoc:
  "run (es @ [e]) g =
     (case run es g of
        None \<Rightarrow> None
      | Some (out, g') \<Rightarrow>
          (case step e g' of None \<Rightarrow> None | Some (out', g'') \<Rightarrow> Some (out @ out', g'')))"
  by (simp add: run_append split: option.splits)

text \<open>The first \<open>k\<close> presses of the pattern, \<open>k\<close> below 15, made in Puzzle3 from index 0.\<close>

lemma run_pattern_prefix:
  assumes "currentState g = Puzzle3" and "nextSequenceIndex g = 0" and "length nows = 15"
    and "k < 15"
  shows "map_option snd (run (take k (map2 PuzzleButton BUTTON_SEQUENCE nows)) g) =
           Some (if k = 0 then g
                 else g\<lparr>nextSequenceIndex := k, sequenceError := False,
                        sequenceErrorExpiresAt := 0\<rparr>)"
  using assms(4)
proof (induction k)
  case 0
  show ?case by simp
next
  case (Suc k)
  let ?evs = "map2 PuzzleButton BUTTON_SEQUENCE nows"
  let ?gk = "if k = 0 then g
             else g\<lparr>nextSequenceIndex := k, sequenceError := False,
                    sequenceErrorExpiresAt := 0\<rparr>"
  from Suc.prems have k: "k < 14" by simp
  then have "k < length ?evs"
    using assms(3) by (simp add: length_BUTTON_SEQUENCE)
  then have t: "take (Suc k) ?evs = take k ?evs @ [?evs ! k]"
    by (rule take_Suc_conv_app_nth)
  have n: "?evs ! k = PuzzleButton (BUTTON_SEQUENCE ! k) (nows ! k)"
    using k assms(3) by (simp add: length_BUTTON_SEQUENCE)
  from Suc.IH k obtain out where r: "run (take k ?evs) g = Some (out, ?gk)"
    by auto
  have st: "currentState ?gk = Puzzle3" and ix: "nextSequenceIndex ?gk = k"
    using assms(1,2) by simp_all
  have "registerButtonPress (BUTTON_SEQUENCE ! nextSequenceIndex ?gk) (nows ! k) ?gk =
           Some ([LogButtonReceived (BUTTON_SEQUENCE ! nextSequenceIndex ?gk),
                  LogButtonProgress (nextSequenceIndex ?gk + 1) 15],
                 ?gk\<lparr>nextSequenceIndex := nextSequenceIndex ?gk + 1, sequenceError := False,
                   sequenceErrorExpiresAt := 0\<rparr>)"
    using st ix k by (intro registerButtonPress_correct) simp_all
  then have s: "step (?evs ! k) ?gk =
      Some ([LogButtonReceived (BUTTON_SEQUENCE ! k), LogButtonProgress (k + 1) 15],
            g\<lparr>nextSequenceIndex := Suc k, sequenceError := False,
              sequenceErrorExpiresAt := 0\<rparr>)"
    unfolding ix n by simp
  show ?case
    unfolding t run_snoc r using s by simp
qed

text \<open>
  Where the index falls back to 0: only a reset, the entry into Puzzle3 from Puzzle2 and a
  wrong press in Puzzle3 take a nonzero index to 0.
\<close>

lemma index_zero_advanceToPuzzle:
  assumes "nextSequenceIndex g \<noteq> 0" and "nextSequenceIndex (snd (advanceToPuzzle target g)) = 0"
  shows "currentState g = Puzzle2 \<and> currentState (snd (advanceToPuzzle target g)) = Puzzle3"
  using assms
  by (cases "currentState g"; cases target)
    (simp_all add: advanceToPuzzle_eq completeMission_eq)

lemma index_zero_handleRemoteButton:
  assumes "\<not> isReset (Remote c)" and "nextSequenceIndex g \<noteq> 0"
    and "nextSequenceIndex (snd (handleRemoteButton c g)) = 0"
  shows "currentState g = Puzzle2 \<and> currentState (snd (handleRemoteButton c g)) = Puzzle3"
proof -
  consider (a) "c = CHR ''A'' \<or> c = CHR ''a''"
    | (b) "\<not> (c = CHR ''A'' \<or> c = CHR ''a'')" "c = CHR ''B'' \<or> c = CHR ''b''"
    | (d) "\<not> (c = CHR ''A'' \<or> c = CHR ''a'')" "\<not> (c = CHR ''B'' \<or> c = CHR ''b'')"
        "c = CHR ''D'' \<or> c = CHR ''d''"
    | (u) "\<not> (c = CHR ''A'' \<or> c = CHR ''a'')" "\<not> (c = CHR ''B'' \<or> c = CHR ''b'')"
        "\<not> (c = CHR ''D'' \<or> c = CHR ''d'')"
    by blast
  then show ?thesis
  proof cases
    case a
    then have "snd (handleRemoteButton c g) = snd (advanceToPuzzle Puzzle2 g)"
      by (simp add: handleRemoteButton_eq)
    with assms index_zero_advanceToPuzzle [of g Puzzle2] show ?thesis by simp
  next
    case b
    then have "snd (handleRemoteButton c g) = snd (advanceToPuzzle Puzzle3 g)"
      by (simp add: handleRemoteButton_eq)
    with assms index_zero_advanceToPuzzle [of g Puzzle3] show ?thesis by simp
  next
    case d
    with assms(1) have "snd (handleRemoteButton c g) = snd (completeMission g)"
      by (simp add: handleRemoteButton_eq)
    with assms show ?thesis by (simp add: completeMission_eq)
  next
    case u
    with assms(1) have "snd (handleRemoteButton c g) = g"
      by (simp add: handleRemoteButton_eq)
    with assms show ?thesis by simp
  qed
qed

lemma index_zero_registerButtonPress:
  assumes "registerButtonPress b now g = Some r" and "nextSequenceIndex g \<noteq> 0"
    and "nextSequenceIndex (snd r) = 0"
  shows "currentState g = Puzzle3 \<and> b \<noteq> BUTTON_SEQUENCE ! nextSequenceIndex g"
proof (cases "currentState g = Puzzle3")
  case False
  with assms show ?thesis by (auto simp add: registerButtonPress_eq)
next
  case True
  show ?thesis
  proof (cases "b = BUTTON_SEQUENCE ! nextSequenceIndex g")
    case False
    with True show ?thesis by simp
  next
    case eq: True
    with True assms(1) have "nextSequenceIndex (snd r) \<noteq> 0"
      by (cases "15 \<le> nextSequenceIndex g"; cases "nextSequenceIndex g < 14")
        (auto simp add: registerButtonPress_eq)
    with assms(3) show ?thesis by simp
  qed
qed

lemma step_index_zero:
  assumes "step e g = Some r" and "nextSequenceIndex g \<noteq> 0" and "nextSequenceIndex (snd r) = 0"
  shows "isReset e
         \<or> (currentState g = Puzzle2 \<and> currentState (snd r) = Puzzle3)
         \<or> (\<exists>b t. e = PuzzleButton b t \<and> currentState g = Puzzle3
                \<and> b \<noteq> BUTTON_SEQUENCE ! nextSequenceIndex g)"
proof (cases e)
  case (Remote c)
  show ?thesis
  proof (cases "isReset (Remote c)")
    case True
    with Remote show ?thesis by simp
  next
    case False
    from assms Remote have "r = handleRemoteButton c g" by simp
    with index_zero_handleRemoteButton [OF False assms(2)] assms(3) show ?thesis by simp
  qed
next
  case (PuzzleButton b now)
  with assms have "registerButtonPress b now g = Some r" by simp
  from index_zero_registerButtonPress [OF this assms(2,3)] PuzzleButton show ?thesis by simp
next
  case ConfirmConduits
  with assms show ?thesis by (auto simp add: confirmConduitsAligned_def split: if_splits)
next
  case (Poll now)
  have "nextSequenceIndex (snd (isSequenceErrorActive now g)) = nextSequenceIndex g"
    by (simp add: isSequenceErrorActive_def clearSequenceError_def)
  with Poll assms show ?thesis by auto
next
  case (Advance target)
  with assms have "r = advanceToPuzzle target g" by simp
  with index_zero_advanceToPuzzle [OF assms(2), of target] assms(3) show ?thesis by simp
next
  case Complete
  with assms show ?thesis by (auto simp add: completeMission_eq)
next
  case Reset
  then show ?thesis by simp
qed

subsection \<open>Reset\<close>

text \<open>
  C6. \<open>resetGame\<close>, from any state whatever, leaves the game in stage Puzzle1 with
  \<open>conduitsVerified\<close> false, \<open>nextSequenceIndex\<close> 0, the sequence error cleared (flag
  false, expiry 0, and the flag read as inactive at every clock value) and
  \<open>latchTriggered\<close> false.
\<close>

theorem resetGame_restores_start:
  "currentState (snd (resetGame g)) = Puzzle1
   \<and> conduitsVerified (snd (resetGame g)) = False
   \<and> nextSequenceIndex (snd (resetGame g)) = 0
   \<and> sequenceError (snd (resetGame g)) = False
   \<and> sequenceErrorExpiresAt (snd (resetGame g)) = 0
   \<and> fst (isSequenceErrorActive now (snd (resetGame g))) = False
   \<and> latchTriggered (snd (resetGame g)) = False"
  by (simp add: snd_resetGame isSequenceErrorActive_def)

theorem resetGame_restores_start_witness:
  "currentState (snd (resetGame
     \<lparr> currentState = MissionComplete, nextSequenceIndex = 15, latchTriggered = True,
       conduitsVerified = True, sequenceError = True, sequenceErrorExpiresAt = 5 \<rparr>)) = Puzzle1
   \<and> latchTriggered (snd (resetGame
     \<lparr> currentState = MissionComplete, nextSequenceIndex = 15, latchTriggered = True,
       conduitsVerified = True, sequenceError = True, sequenceErrorExpiresAt = 5 \<rparr>)) = False
   \<and> nextSequenceIndex (snd (resetGame
     \<lparr> currentState = MissionComplete, nextSequenceIndex = 15, latchTriggered = True,
       conduitsVerified = True, sequenceError = True, sequenceErrorExpiresAt = 5 \<rparr>)) = 0"
  using resetGame_restores_start
    [of "\<lparr> currentState = MissionComplete, nextSequenceIndex = 15, latchTriggered = True,
           conduitsVerified = True, sequenceError = True, sequenceErrorExpiresAt = 5 \<rparr>" 0]
  by simp

subsection \<open>Mission complete and the sequence progress\<close>

text \<open>
  C1, as the code has it. \<open>completeMission\<close>, called from any state, clears the sequence
  error (flag false, expiry 0) and leaves \<open>nextSequenceIndex\<close> as it found it. Remote
  button D, in either case of the letter, is exactly that call, and the final correct press
  of the pattern, made in Puzzle3 at index 14, ends in MissionComplete with the error
  cleared and the index at 15. The index returns to 0 only on a reset, on entering Puzzle3
  from Puzzle2, or on a wrong press in Puzzle3: a step of any kind that takes a nonzero
  index to 0 is one of these three, and each of the three does put the index to 0.
\<close>

theorem completeMission_progress:
  "nextSequenceIndex (snd (completeMission g)) = nextSequenceIndex g
   \<and> sequenceError (snd (completeMission g)) = False
   \<and> sequenceErrorExpiresAt (snd (completeMission g)) = 0
   \<and> snd (handleRemoteButton CHR ''D'' g) = snd (completeMission g)
   \<and> snd (handleRemoteButton CHR ''d'' g) = snd (completeMission g)
   \<and> (currentState g = Puzzle3 \<and> nextSequenceIndex g = 14 \<longrightarrow>
        (\<exists>out g'. registerButtonPress 1 now g = Some (out, g')
           \<and> currentState g' = MissionComplete \<and> nextSequenceIndex g' = 15
           \<and> sequenceError g' = False \<and> sequenceErrorExpiresAt g' = 0))
   \<and> (step e g = Some (out, g') \<and> nextSequenceIndex g \<noteq> 0 \<and> nextSequenceIndex g' = 0 \<longrightarrow>
        isReset e
        \<or> (currentState g = Puzzle2 \<and> currentState g' = Puzzle3)
        \<or> (\<exists>b' t. e = PuzzleButton b' t \<and> currentState g = Puzzle3
               \<and> b' \<noteq> BUTTON_SEQUENCE ! nextSequenceIndex g))
   \<and> (isReset e \<and> step e g = Some (out, g') \<longrightarrow> nextSequenceIndex g' = 0)
   \<and> (step e g = Some (out, g') \<and> currentState g = Puzzle2 \<and> currentState g' = Puzzle3 \<longrightarrow>
        nextSequenceIndex g' = 0)
   \<and> (currentState g = Puzzle3 \<and> nextSequenceIndex g < 15
        \<and> b \<noteq> BUTTON_SEQUENCE ! nextSequenceIndex g \<longrightarrow>
        (\<exists>out' h. registerButtonPress b now g = Some (out', h) \<and> nextSequenceIndex h = 0))"
proof -
  have c1: "nextSequenceIndex (snd (completeMission g)) = nextSequenceIndex g"
    and c2: "sequenceError (snd (completeMission g)) = False"
    and c3: "sequenceErrorExpiresAt (snd (completeMission g)) = 0"
    by (simp_all add: completeMission_eq)
  have c4: "snd (handleRemoteButton CHR ''D'' g) = snd (completeMission g)"
    and c5: "snd (handleRemoteButton CHR ''d'' g) = snd (completeMission g)"
    by (simp_all add: handleRemoteButton_eq)
  have c6: "currentState g = Puzzle3 \<and> nextSequenceIndex g = 14 \<longrightarrow>
        (\<exists>out g'. registerButtonPress 1 now g = Some (out, g')
           \<and> currentState g' = MissionComplete \<and> nextSequenceIndex g' = 15
           \<and> sequenceError g' = False \<and> sequenceErrorExpiresAt g' = 0)"
    by (simp add: registerButtonPress_eq BUTTON_SEQUENCE_def)
  have c7: "step e g = Some (out, g') \<and> nextSequenceIndex g \<noteq> 0 \<and> nextSequenceIndex g' = 0
      \<longrightarrow> isReset e
        \<or> (currentState g = Puzzle2 \<and> currentState g' = Puzzle3)
        \<or> (\<exists>b' t. e = PuzzleButton b' t \<and> currentState g = Puzzle3
               \<and> b' \<noteq> BUTTON_SEQUENCE ! nextSequenceIndex g)"
  proof
    assume h: "step e g = Some (out, g') \<and> nextSequenceIndex g \<noteq> 0 \<and> nextSequenceIndex g' = 0"
    then have "step e g = Some (out, g')" and "nextSequenceIndex g \<noteq> 0"
      and "nextSequenceIndex (snd (out, g')) = 0"
      by simp_all
    from step_index_zero [OF this]
    show "isReset e
        \<or> (currentState g = Puzzle2 \<and> currentState g' = Puzzle3)
        \<or> (\<exists>b' t. e = PuzzleButton b' t \<and> currentState g = Puzzle3
               \<and> b' \<noteq> BUTTON_SEQUENCE ! nextSequenceIndex g)"
      by simp
  qed
  have c8: "isReset e \<and> step e g = Some (out, g') \<longrightarrow> nextSequenceIndex g' = 0"
  proof
    assume h: "isReset e \<and> step e g = Some (out, g')"
    then have "g' = snd (resetGame g)"
      by (cases e) (auto simp add: handleRemoteButton_eq)
    then show "nextSequenceIndex g' = 0"
      by (simp add: snd_resetGame)
  qed
  have c9: "step e g = Some (out, g') \<and> currentState g = Puzzle2 \<and> currentState g' = Puzzle3
      \<longrightarrow> nextSequenceIndex g' = 0"
  proof
    assume h: "step e g = Some (out, g') \<and> currentState g = Puzzle2 \<and> currentState g' = Puzzle3"
    then have "index_step g (snd (out, g'))"
      using step_index [of e g "(out, g')"] by simp
    with h show "nextSequenceIndex g' = 0"
      by (simp add: index_step_def)
  qed
  have c10: "currentState g = Puzzle3 \<and> nextSequenceIndex g < 15
        \<and> b \<noteq> BUTTON_SEQUENCE ! nextSequenceIndex g \<longrightarrow>
        (\<exists>out' h. registerButtonPress b now g = Some (out', h) \<and> nextSequenceIndex h = 0)"
    by (simp add: registerButtonPress_eq)
  from c1 c2 c3 c4 c5 c6 c7 c8 c9 c10 show ?thesis by (intro conjI)
qed

theorem completeMission_progress_witness:
  "nextSequenceIndex (snd (completeMission
     \<lparr> currentState = Puzzle3, nextSequenceIndex = 14, latchTriggered = False,
       conduitsVerified = False, sequenceError = True, sequenceErrorExpiresAt = 7 \<rparr>)) = 14
   \<and> (\<exists>out g'. registerButtonPress 1 0
         \<lparr> currentState = Puzzle3, nextSequenceIndex = 14, latchTriggered = False,
           conduitsVerified = False, sequenceError = True, sequenceErrorExpiresAt = 7 \<rparr>
           = Some (out, g')
         \<and> currentState g' = MissionComplete \<and> nextSequenceIndex g' = 15
         \<and> sequenceError g' = False \<and> sequenceErrorExpiresAt g' = 0)
   \<and> (\<exists>out' h. registerButtonPress 2 0
         \<lparr> currentState = Puzzle3, nextSequenceIndex = 14, latchTriggered = False,
           conduitsVerified = False, sequenceError = True, sequenceErrorExpiresAt = 7 \<rparr>
           = Some (out', h)
         \<and> nextSequenceIndex h = 0)
   \<and> step Reset
         \<lparr> currentState = Puzzle3, nextSequenceIndex = 14, latchTriggered = False,
           conduitsVerified = False, sequenceError = True, sequenceErrorExpiresAt = 7 \<rparr>
       = Some ([LogReset],
         \<lparr> currentState = Puzzle1, nextSequenceIndex = 0, latchTriggered = False,
           conduitsVerified = False, sequenceError = False, sequenceErrorExpiresAt = 0 \<rparr>)
   \<and> isReset Reset
   \<and> step (Advance Puzzle3)
         \<lparr> currentState = Puzzle2, nextSequenceIndex = 7, latchTriggered = False,
           conduitsVerified = False, sequenceError = False, sequenceErrorExpiresAt = 0 \<rparr>
       = Some ([LogAdvanced3],
         \<lparr> currentState = Puzzle3, nextSequenceIndex = 0, latchTriggered = False,
           conduitsVerified = False, sequenceError = False, sequenceErrorExpiresAt = 0 \<rparr>)
   \<and> nextSequenceIndex
         \<lparr> currentState = Puzzle3, nextSequenceIndex = 0, latchTriggered = False,
           conduitsVerified = False, sequenceError = False, sequenceErrorExpiresAt = 0 \<rparr> = 0"
proof -
  have n: "(2 :: uint8) \<noteq> BUTTON_SEQUENCE ! 14"
    by (simp add: BUTTON_SEQUENCE_def)
  have r: "step Reset
         \<lparr> currentState = Puzzle3, nextSequenceIndex = 14, latchTriggered = False,
           conduitsVerified = False, sequenceError = True, sequenceErrorExpiresAt = 7 \<rparr>
       = Some ([LogReset],
         \<lparr> currentState = Puzzle1, nextSequenceIndex = 0, latchTriggered = False,
           conduitsVerified = False, sequenceError = False, sequenceErrorExpiresAt = 0 \<rparr>)"
    by (simp add: resetGame_def helper_defs)
  have a: "step (Advance Puzzle3)
         \<lparr> currentState = Puzzle2, nextSequenceIndex = 7, latchTriggered = False,
           conduitsVerified = False, sequenceError = False, sequenceErrorExpiresAt = 0 \<rparr>
       = Some ([LogAdvanced3],
         \<lparr> currentState = Puzzle3, nextSequenceIndex = 0, latchTriggered = False,
           conduitsVerified = False, sequenceError = False, sequenceErrorExpiresAt = 0 \<rparr>)"
    by (simp add: advanceToPuzzle_eq)
  show ?thesis
    using n r a
      completeMission_progress
        [where g = "\<lparr> currentState = Puzzle3, nextSequenceIndex = 14,
             latchTriggered = False, conduitsVerified = False, sequenceError = True,
             sequenceErrorExpiresAt = 7 \<rparr>"
           and now = 0 and b = 2 and e = Reset and out = "[LogReset]"
           and g' = "\<lparr> currentState = Puzzle1, nextSequenceIndex = 0,
             latchTriggered = False, conduitsVerified = False, sequenceError = False,
             sequenceErrorExpiresAt = 0 \<rparr>"]
      completeMission_progress
        [where g = "\<lparr> currentState = Puzzle2, nextSequenceIndex = 7,
             latchTriggered = False, conduitsVerified = False, sequenceError = False,
             sequenceErrorExpiresAt = 0 \<rparr>"
           and now = 0 and b = 2 and e = "Advance Puzzle3" and out = "[LogAdvanced3]"
           and g' = "\<lparr> currentState = Puzzle3, nextSequenceIndex = 0,
             latchTriggered = False, conduitsVerified = False, sequenceError = False,
             sequenceErrorExpiresAt = 0 \<rparr>"]
    by simp
qed

text \<open>
  The sentence of the specification fails: after remote buttons A and B, one correct press (button 4)
  and the force-complete button D, all from the initial state, the game is in
  MissionComplete with \<open>nextSequenceIndex\<close> 1, not 0.
\<close>

theorem completeMission_index_counterexample:
  "run [Remote CHR ''A'', Remote CHR ''B'', PuzzleButton 4 0, Remote CHR ''D''] initialGame
     = Some ([LogRemoteA, LogAdvanced2, LogRemoteB, LogAdvanced3,
              LogButtonReceived 4, LogButtonProgress 1 15,
              LogRemoteD, LogLatch, LogMissionComplete],
             \<lparr> currentState = MissionComplete, nextSequenceIndex = 1, latchTriggered = True,
               conduitsVerified = False, sequenceError = False,
               sequenceErrorExpiresAt = 0 \<rparr>)
   \<and> nextSequenceIndex (snd (completeMission
         \<lparr> currentState = Puzzle3, nextSequenceIndex = 1, latchTriggered = False,
           conduitsVerified = False, sequenceError = False,
           sequenceErrorExpiresAt = 0 \<rparr>)) \<noteq> 0"
  by (simp add: initialGame_def handleRemoteButton_def advanceToPuzzle_eq completeMission_eq
      registerButtonPress_def BUTTON_SEQUENCE_LENGTH_def BUTTON_SEQUENCE_def
      clearSequenceError_def)

subsection \<open>Stage transitions\<close>

text \<open>
  C2. \<open>advanceToPuzzle\<close> acts on exactly three pairs of current stage and target. From
  Puzzle1 to Puzzle2 it sets the stage, clears \<open>conduitsVerified\<close> and clears the
  sequence error. From Puzzle2 to Puzzle3 it sets the stage, puts \<open>nextSequenceIndex\<close>
  to 0 and clears the sequence error, whatever \<open>conduitsVerified\<close> is. From Puzzle3 to
  MissionComplete it is \<open>completeMission\<close>. On every other pair the request is refused
  (the refusal is the serial line) and the state comes back as it was; in
  MissionComplete that is so for every target.
\<close>

theorem advanceToPuzzle_transitions:
  "(currentState g = Puzzle1 \<longrightarrow>
      advanceToPuzzle Puzzle2 g =
        ([LogAdvanced2],
         g\<lparr>currentState := Puzzle2, conduitsVerified := False,
           sequenceError := False, sequenceErrorExpiresAt := 0\<rparr>))
   \<and> (currentState g = Puzzle2 \<longrightarrow>
      advanceToPuzzle Puzzle3 g =
        ([LogAdvanced3],
         g\<lparr>currentState := Puzzle3, nextSequenceIndex := 0,
           sequenceError := False, sequenceErrorExpiresAt := 0\<rparr>))
   \<and> (currentState g = Puzzle3 \<longrightarrow>
      advanceToPuzzle MissionComplete g = completeMission g)
   \<and> ((currentState g, target) \<notin>
        {(Puzzle1, Puzzle2), (Puzzle2, Puzzle3), (Puzzle3, MissionComplete)} \<longrightarrow>
      snd (advanceToPuzzle target g) = g
      \<and> fst (advanceToPuzzle target g) \<in> {[LogAlreadyComplete], [LogInvalidTransition]})
   \<and> (currentState g = MissionComplete \<longrightarrow>
      advanceToPuzzle target g = ([LogAlreadyComplete], g))"
  by (simp add: advanceToPuzzle_eq)

theorem advanceToPuzzle_transitions_witness:
  "advanceToPuzzle Puzzle2
     \<lparr> currentState = Puzzle1, nextSequenceIndex = 3, latchTriggered = False,
       conduitsVerified = True, sequenceError = True, sequenceErrorExpiresAt = 9 \<rparr>
     = ([LogAdvanced2],
        \<lparr> currentState = Puzzle2, nextSequenceIndex = 3, latchTriggered = False,
          conduitsVerified = False, sequenceError = False, sequenceErrorExpiresAt = 0 \<rparr>)
   \<and> advanceToPuzzle Puzzle3
     \<lparr> currentState = Puzzle2, nextSequenceIndex = 3, latchTriggered = False,
       conduitsVerified = False, sequenceError = True, sequenceErrorExpiresAt = 9 \<rparr>
     = ([LogAdvanced3],
        \<lparr> currentState = Puzzle3, nextSequenceIndex = 0, latchTriggered = False,
          conduitsVerified = False, sequenceError = False, sequenceErrorExpiresAt = 0 \<rparr>)
   \<and> advanceToPuzzle MissionComplete
     \<lparr> currentState = Puzzle3, nextSequenceIndex = 3, latchTriggered = False,
       conduitsVerified = False, sequenceError = True, sequenceErrorExpiresAt = 9 \<rparr>
     = completeMission
        \<lparr> currentState = Puzzle3, nextSequenceIndex = 3, latchTriggered = False,
          conduitsVerified = False, sequenceError = True, sequenceErrorExpiresAt = 9 \<rparr>
   \<and> snd (advanceToPuzzle Puzzle3
     \<lparr> currentState = Puzzle1, nextSequenceIndex = 3, latchTriggered = False,
       conduitsVerified = False, sequenceError = True, sequenceErrorExpiresAt = 9 \<rparr>)
     = \<lparr> currentState = Puzzle1, nextSequenceIndex = 3, latchTriggered = False,
         conduitsVerified = False, sequenceError = True, sequenceErrorExpiresAt = 9 \<rparr>
   \<and> advanceToPuzzle Puzzle1
     \<lparr> currentState = MissionComplete, nextSequenceIndex = 15, latchTriggered = True,
       conduitsVerified = True, sequenceError = False, sequenceErrorExpiresAt = 0 \<rparr>
     = ([LogAlreadyComplete],
        \<lparr> currentState = MissionComplete, nextSequenceIndex = 15, latchTriggered = True,
          conduitsVerified = True, sequenceError = False, sequenceErrorExpiresAt = 0 \<rparr>)"
  using
    advanceToPuzzle_transitions
      [of "\<lparr> currentState = Puzzle1, nextSequenceIndex = 3, latchTriggered = False,
             conduitsVerified = True, sequenceError = True, sequenceErrorExpiresAt = 9 \<rparr>"
          Puzzle2]
    advanceToPuzzle_transitions
      [of "\<lparr> currentState = Puzzle2, nextSequenceIndex = 3, latchTriggered = False,
             conduitsVerified = False, sequenceError = True, sequenceErrorExpiresAt = 9 \<rparr>"
          Puzzle3]
    advanceToPuzzle_transitions
      [of "\<lparr> currentState = Puzzle3, nextSequenceIndex = 3, latchTriggered = False,
             conduitsVerified = False, sequenceError = True, sequenceErrorExpiresAt = 9 \<rparr>"
          MissionComplete]
    advanceToPuzzle_transitions
      [of "\<lparr> currentState = Puzzle1, nextSequenceIndex = 3, latchTriggered = False,
             conduitsVerified = False, sequenceError = True, sequenceErrorExpiresAt = 9 \<rparr>"
          Puzzle3]
    advanceToPuzzle_transitions
      [of "\<lparr> currentState = MissionComplete, nextSequenceIndex = 15, latchTriggered = True,
             conduitsVerified = True, sequenceError = False, sequenceErrorExpiresAt = 0 \<rparr>"
          Puzzle1]
  by simp

subsection \<open>The latch\<close>

text \<open>
  C5. \<open>completeMission\<close> fires the latch at most once between two resets. Called with
  \<open>latchTriggered\<close> false (the first call, in any stage) it prints the latch line and sets
  the flag; called with the flag set it prints no latch line and leaves the flag set. In
  both cases the stage becomes MissionComplete and the sequence error is cleared. Calling
  it twice gives the state that calling it once gives, and the second call does not fire.
  Over any sequence of events without a reset, started anywhere, the latch line is printed
  at most once: once exactly when the flag goes from off to on, and not at all if the flag
  was set at the start; the flag, once set, stays set, so a later \<open>completeMission\<close>
  does not fire either.
\<close>

theorem completeMission_latch_once:
  "(\<not> latchTriggered g \<longrightarrow> fst (completeMission g) = [LogLatch, LogMissionComplete])
   \<and> (latchTriggered g \<longrightarrow> fst (completeMission g) = [LogMissionComplete])
   \<and> latchTriggered (snd (completeMission g))
   \<and> currentState (snd (completeMission g)) = MissionComplete
   \<and> sequenceError (snd (completeMission g)) = False
   \<and> sequenceErrorExpiresAt (snd (completeMission g)) = 0
   \<and> snd (completeMission (snd (completeMission g))) = snd (completeMission g)
   \<and> fst (completeMission (snd (completeMission g))) = [LogMissionComplete]
   \<and> ((\<forall>e \<in> set es. \<not> isReset e) \<and> run es g = Some (out, g') \<longrightarrow>
        count_list out LogLatch \<le> 1
        \<and> (count_list out LogLatch = 1) = (latchTriggered g' \<and> \<not> latchTriggered g)
        \<and> (latchTriggered g \<longrightarrow>
             LogLatch \<notin> set out \<and> latchTriggered g'
             \<and> fst (completeMission g') = [LogMissionComplete]))"
proof -
  have "count_list out LogLatch \<le> 1
        \<and> (count_list out LogLatch = 1) = (latchTriggered g' \<and> \<not> latchTriggered g)
        \<and> (latchTriggered g \<longrightarrow>
             LogLatch \<notin> set out \<and> latchTriggered g'
             \<and> fst (completeMission g') = [LogMissionComplete])"
    if "\<forall>e \<in> set es. \<not> isReset e" and "run es g = Some (out, g')"
  proof -
    from run_latch [OF that] have l: "latch_step g (out, g')" .
    then have "count_list out LogLatch \<le> 1
        \<and> (count_list out LogLatch = 1) = (latchTriggered g' \<and> \<not> latchTriggered g)"
      by (simp add: latch_step_def split: if_splits)
    moreover have "LogLatch \<notin> set out \<and> latchTriggered g'
        \<and> fst (completeMission g') = [LogMissionComplete]" if "latchTriggered g"
      using l that by (simp add: latch_step_def completeMission_eq count_list_0_iff)
    ultimately show ?thesis by blast
  qed
  then show ?thesis
    by (simp add: completeMission_eq)
qed

theorem completeMission_latch_once_witness:
  "fst (completeMission initialGame) = [LogLatch, LogMissionComplete]
   \<and> fst (completeMission (snd (completeMission initialGame))) = [LogMissionComplete]
   \<and> list_all (\<lambda>e. \<not> isReset e)
         [Remote CHR ''A'', Complete, Advance Puzzle2, Remote CHR ''D'']
   \<and> run [Remote CHR ''A'', Complete, Advance Puzzle2, Remote CHR ''D''] initialGame
       = Some ([LogRemoteA, LogAdvanced2, LogLatch, LogMissionComplete,
                LogAlreadyComplete, LogRemoteD, LogMissionComplete],
               \<lparr> currentState = MissionComplete, nextSequenceIndex = 0,
                 latchTriggered = True, conduitsVerified = False, sequenceError = False,
                 sequenceErrorExpiresAt = 0 \<rparr>)
   \<and> count_list [LogRemoteA, LogAdvanced2, LogLatch, LogMissionComplete,
                 LogAlreadyComplete, LogRemoteD, LogMissionComplete] LogLatch \<le> 1"
proof -
  have r: "run [Remote CHR ''A'', Complete, Advance Puzzle2, Remote CHR ''D''] initialGame
       = Some ([LogRemoteA, LogAdvanced2, LogLatch, LogMissionComplete,
                LogAlreadyComplete, LogRemoteD, LogMissionComplete],
               \<lparr> currentState = MissionComplete, nextSequenceIndex = 0,
                 latchTriggered = True, conduitsVerified = False, sequenceError = False,
                 sequenceErrorExpiresAt = 0 \<rparr>)"
    by (simp add: initialGame_def handleRemoteButton_eq advanceToPuzzle_eq completeMission_eq)
  have i: "\<not> latchTriggered initialGame"
    by (simp add: initialGame_def)
  show ?thesis
    using completeMission_latch_once
      [of initialGame "[Remote CHR ''A'', Complete, Advance Puzzle2, Remote CHR ''D'']"
          "[LogRemoteA, LogAdvanced2, LogLatch, LogMissionComplete,
            LogAlreadyComplete, LogRemoteD, LogMissionComplete]"
          "\<lparr> currentState = MissionComplete, nextSequenceIndex = 0,
             latchTriggered = True, conduitsVerified = False, sequenceError = False,
             sequenceErrorExpiresAt = 0 \<rparr>"] r i
    by simp
qed

subsection \<open>Conduit confirmation\<close>

text \<open>
  C7. \<open>confirmConduitsAligned\<close> answers WrongState and changes nothing when the stage is
  not Puzzle2; answers AlreadyConfirmed and changes nothing when the stage is Puzzle2 and
  \<open>conduitsVerified\<close> is set; otherwise sets \<open>conduitsVerified\<close> and answers Accepted, so
  that a second call right after answers AlreadyConfirmed, with the flag set after both.
  No other event turns \<open>conduitsVerified\<close> on: if it is set after a step that is not the
  confirmation, it was set before.
\<close>

theorem confirmConduitsAligned_cases:
  "(currentState g \<noteq> Puzzle2 \<longrightarrow>
      confirmConduitsAligned g = (WrongState, [LogConduitsIgnored], g))
   \<and> (currentState g = Puzzle2 \<and> conduitsVerified g \<longrightarrow>
      confirmConduitsAligned g = (AlreadyConfirmed, [LogConduitsAlready], g))
   \<and> (currentState g = Puzzle2 \<and> \<not> conduitsVerified g \<longrightarrow>
      confirmConduitsAligned g
        = (Accepted, [LogConduitsConfirmed], g\<lparr>conduitsVerified := True\<rparr>)
      \<and> confirmConduitsAligned (snd (snd (confirmConduitsAligned g)))
        = (AlreadyConfirmed, [LogConduitsAlready], g\<lparr>conduitsVerified := True\<rparr>)
      \<and> conduitsVerified (snd (snd (confirmConduitsAligned g)))
      \<and> conduitsVerified
          (snd (snd (confirmConduitsAligned (snd (snd (confirmConduitsAligned g)))))))
   \<and> (e \<noteq> ConfirmConduits \<and> step e g = Some (out, g') \<and> conduitsVerified g' \<longrightarrow>
      conduitsVerified g)"
proof -
  have "conduitsVerified g"
    if "e \<noteq> ConfirmConduits" and "step e g = Some (out, g')" and "conduitsVerified g'"
    using step_conduits_only_confirm [of e g "(out, g')"] that by simp
  then show ?thesis
    by (simp add: confirmConduitsAligned_def)
qed

theorem confirmConduitsAligned_cases_witness:
  "confirmConduitsAligned initialGame = (WrongState, [LogConduitsIgnored], initialGame)
   \<and> confirmConduitsAligned
       \<lparr> currentState = Puzzle2, nextSequenceIndex = 0, latchTriggered = False,
         conduitsVerified = True, sequenceError = False, sequenceErrorExpiresAt = 0 \<rparr>
     = (AlreadyConfirmed, [LogConduitsAlready],
        \<lparr> currentState = Puzzle2, nextSequenceIndex = 0, latchTriggered = False,
          conduitsVerified = True, sequenceError = False, sequenceErrorExpiresAt = 0 \<rparr>)
   \<and> confirmConduitsAligned
       \<lparr> currentState = Puzzle2, nextSequenceIndex = 0, latchTriggered = False,
         conduitsVerified = False, sequenceError = False, sequenceErrorExpiresAt = 0 \<rparr>
     = (Accepted, [LogConduitsConfirmed],
        \<lparr> currentState = Puzzle2, nextSequenceIndex = 0, latchTriggered = False,
          conduitsVerified = True, sequenceError = False, sequenceErrorExpiresAt = 0 \<rparr>)
   \<and> (Advance Puzzle3 \<noteq> ConfirmConduits
      \<and> step (Advance Puzzle3)
          \<lparr> currentState = Puzzle2, nextSequenceIndex = 0, latchTriggered = False,
            conduitsVerified = True, sequenceError = False, sequenceErrorExpiresAt = 0 \<rparr>
        = Some ([LogAdvanced3],
          \<lparr> currentState = Puzzle3, nextSequenceIndex = 0, latchTriggered = False,
            conduitsVerified = True, sequenceError = False, sequenceErrorExpiresAt = 0 \<rparr>))"
  using
    confirmConduitsAligned_cases [of initialGame Reset "[]" initialGame]
    confirmConduitsAligned_cases
      [of "\<lparr> currentState = Puzzle2, nextSequenceIndex = 0, latchTriggered = False,
             conduitsVerified = True, sequenceError = False, sequenceErrorExpiresAt = 0 \<rparr>"
          "Advance Puzzle3" "[LogAdvanced3]"
          "\<lparr> currentState = Puzzle3, nextSequenceIndex = 0, latchTriggered = False,
             conduitsVerified = True, sequenceError = False, sequenceErrorExpiresAt = 0 \<rparr>"]
    confirmConduitsAligned_cases
      [of "\<lparr> currentState = Puzzle2, nextSequenceIndex = 0, latchTriggered = False,
             conduitsVerified = False, sequenceError = False, sequenceErrorExpiresAt = 0 \<rparr>"
          Reset "[]" initialGame]
  by (simp add: initialGame_def advanceToPuzzle_eq)

subsection \<open>Rejected requests\<close>

text \<open>
  C9. A button press outside Puzzle3 is ignored: \<open>registerButtonPress\<close> prints the
  "ignored" line and returns the state as it was, all six variables. The same holds for
  every other request the game turns down: an advance that prints "already complete" or
  "invalid transition", a conduit confirmation that does not answer Accepted, and an
  unknown remote button all return the state unchanged.
\<close>

theorem rejected_requests_change_nothing:
  "(currentState g \<noteq> Puzzle3 \<longrightarrow>
      registerButtonPress b now g = Some ([LogButtonIgnored], g))
   \<and> (fst (advanceToPuzzle target g) \<in> {[LogAlreadyComplete], [LogInvalidTransition]} \<longrightarrow>
      snd (advanceToPuzzle target g) = g)
   \<and> (fst (confirmConduitsAligned g) \<noteq> Accepted \<longrightarrow>
      snd (snd (confirmConduitsAligned g)) = g)
   \<and> (fst (handleRemoteButton c g) = [LogRemoteUnknown] \<longrightarrow>
      snd (handleRemoteButton c g) = g)"
  by (simp add: registerButtonPress_def advanceToPuzzle_eq completeMission_eq
      confirmConduitsAligned_def handleRemoteButton_eq)

theorem rejected_requests_change_nothing_witness:
  "registerButtonPress 4 0
       \<lparr> currentState = Puzzle2, nextSequenceIndex = 2, latchTriggered = False,
         conduitsVerified = True, sequenceError = True, sequenceErrorExpiresAt = 99 \<rparr>
     = Some ([LogButtonIgnored],
       \<lparr> currentState = Puzzle2, nextSequenceIndex = 2, latchTriggered = False,
         conduitsVerified = True, sequenceError = True, sequenceErrorExpiresAt = 99 \<rparr>)
   \<and> fst (advanceToPuzzle Puzzle2
       \<lparr> currentState = Puzzle2, nextSequenceIndex = 2, latchTriggered = False,
         conduitsVerified = True, sequenceError = True, sequenceErrorExpiresAt = 99 \<rparr>)
     = [LogInvalidTransition]
   \<and> snd (advanceToPuzzle Puzzle2
       \<lparr> currentState = Puzzle2, nextSequenceIndex = 2, latchTriggered = False,
         conduitsVerified = True, sequenceError = True, sequenceErrorExpiresAt = 99 \<rparr>)
     = \<lparr> currentState = Puzzle2, nextSequenceIndex = 2, latchTriggered = False,
         conduitsVerified = True, sequenceError = True, sequenceErrorExpiresAt = 99 \<rparr>
   \<and> fst (confirmConduitsAligned
       \<lparr> currentState = Puzzle2, nextSequenceIndex = 2, latchTriggered = False,
         conduitsVerified = True, sequenceError = True, sequenceErrorExpiresAt = 99 \<rparr>)
     = AlreadyConfirmed
   \<and> snd (snd (confirmConduitsAligned
       \<lparr> currentState = Puzzle2, nextSequenceIndex = 2, latchTriggered = False,
         conduitsVerified = True, sequenceError = True, sequenceErrorExpiresAt = 99 \<rparr>))
     = \<lparr> currentState = Puzzle2, nextSequenceIndex = 2, latchTriggered = False,
         conduitsVerified = True, sequenceError = True, sequenceErrorExpiresAt = 99 \<rparr>
   \<and> fst (handleRemoteButton CHR ''x''
       \<lparr> currentState = Puzzle2, nextSequenceIndex = 2, latchTriggered = False,
         conduitsVerified = True, sequenceError = True, sequenceErrorExpiresAt = 99 \<rparr>)
     = [LogRemoteUnknown]
   \<and> snd (handleRemoteButton CHR ''x''
       \<lparr> currentState = Puzzle2, nextSequenceIndex = 2, latchTriggered = False,
         conduitsVerified = True, sequenceError = True, sequenceErrorExpiresAt = 99 \<rparr>)
     = \<lparr> currentState = Puzzle2, nextSequenceIndex = 2, latchTriggered = False,
         conduitsVerified = True, sequenceError = True, sequenceErrorExpiresAt = 99 \<rparr>"
proof -
  have a: "fst (advanceToPuzzle Puzzle2
       \<lparr> currentState = Puzzle2, nextSequenceIndex = 2, latchTriggered = False,
         conduitsVerified = True, sequenceError = True, sequenceErrorExpiresAt = 99 \<rparr>)
     = [LogInvalidTransition]"
    by (simp add: advanceToPuzzle_eq)
  have c: "fst (confirmConduitsAligned
       \<lparr> currentState = Puzzle2, nextSequenceIndex = 2, latchTriggered = False,
         conduitsVerified = True, sequenceError = True, sequenceErrorExpiresAt = 99 \<rparr>)
     = AlreadyConfirmed"
    by (simp add: confirmConduitsAligned_def)
  have r: "fst (handleRemoteButton CHR ''x''
       \<lparr> currentState = Puzzle2, nextSequenceIndex = 2, latchTriggered = False,
         conduitsVerified = True, sequenceError = True, sequenceErrorExpiresAt = 99 \<rparr>)
     = [LogRemoteUnknown]"
    by (simp add: handleRemoteButton_eq)
  show ?thesis
    using a c r
      rejected_requests_change_nothing
        [of "\<lparr> currentState = Puzzle2, nextSequenceIndex = 2, latchTriggered = False,
               conduitsVerified = True, sequenceError = True,
               sequenceErrorExpiresAt = 99 \<rparr>" 4 0 Puzzle2 "CHR ''x''"]
    by simp
qed

subsection \<open>The conduit flag and the stage\<close>

text \<open>
  C8. In every reachable state, \<open>conduitsVerified\<close> set means the stage is Puzzle2 or
  later, never Puzzle1. Every step keeps this: \<open>resetGame\<close> clears the flag, a step that
  enters Puzzle2 leaves the flag off, and a step that turns the flag on is the conduit
  confirmation, made in Puzzle2 and staying there.
\<close>

theorem conduitsVerified_not_in_Puzzle1:
  "(reachable g \<and> conduitsVerified g \<longrightarrow>
      currentState g \<in> {Puzzle2, Puzzle3, MissionComplete})
   \<and> (conduitsInv g \<and> step e g = Some (out, g') \<longrightarrow> conduitsInv g')
   \<and> conduitsVerified (snd (resetGame g)) = False
   \<and> (step e g = Some (out, g') \<and> currentState g \<noteq> Puzzle2 \<and> currentState g' = Puzzle2 \<longrightarrow>
        \<not> conduitsVerified g')
   \<and> (step e g = Some (out, g') \<and> \<not> conduitsVerified g \<and> conduitsVerified g' \<longrightarrow>
        e = ConfirmConduits \<and> currentState g = Puzzle2 \<and> currentState g' = Puzzle2)"
proof -
  have a: "reachable g \<and> conduitsVerified g \<longrightarrow>
      currentState g \<in> {Puzzle2, Puzzle3, MissionComplete}"
  proof
    assume h: "reachable g \<and> conduitsVerified g"
    then have "conduitsInv g" by (simp add: reachable_conduitsInv)
    with h show "currentState g \<in> {Puzzle2, Puzzle3, MissionComplete}"
      by (cases "currentState g") (simp_all add: conduitsInv_def)
  qed
  have s: "conduits_step g g'" if "step e g = Some (out, g')"
    using step_conduits [OF that] by simp
  have b: "conduitsInv g \<and> step e g = Some (out, g') \<longrightarrow> conduitsInv g'"
    using s by (simp add: conduits_step_def)
  have c: "conduitsVerified (snd (resetGame g)) = False"
    by (simp add: snd_resetGame)
  have d: "step e g = Some (out, g') \<and> currentState g \<noteq> Puzzle2 \<and> currentState g' = Puzzle2
      \<longrightarrow> \<not> conduitsVerified g'"
    using s by (simp add: conduits_step_def)
  have e: "step e g = Some (out, g') \<and> \<not> conduitsVerified g \<and> conduitsVerified g' \<longrightarrow>
        e = ConfirmConduits \<and> currentState g = Puzzle2 \<and> currentState g' = Puzzle2"
  proof
    assume h: "step e g = Some (out, g') \<and> \<not> conduitsVerified g \<and> conduitsVerified g'"
    have "e = ConfirmConduits"
    proof (rule ccontr)
      assume "e \<noteq> ConfirmConduits"
      from step_conduits_only_confirm [OF this, of g "(out, g')"] h show False by simp
    qed
    moreover from h s have "currentState g = Puzzle2 \<and> currentState g' = Puzzle2"
      by (simp add: conduits_step_def)
    ultimately show "e = ConfirmConduits \<and> currentState g = Puzzle2 \<and> currentState g' = Puzzle2"
      by simp
  qed
  from a b c d e show ?thesis by (intro conjI)
qed

theorem conduitsVerified_not_in_Puzzle1_witness:
  "reachable
     \<lparr> currentState = Puzzle2, nextSequenceIndex = 0, latchTriggered = False,
       conduitsVerified = True, sequenceError = False, sequenceErrorExpiresAt = 0 \<rparr>
   \<and> step ConfirmConduits
       \<lparr> currentState = Puzzle2, nextSequenceIndex = 0, latchTriggered = False,
         conduitsVerified = False, sequenceError = False, sequenceErrorExpiresAt = 0 \<rparr>
     = Some ([LogConduitsConfirmed],
         \<lparr> currentState = Puzzle2, nextSequenceIndex = 0, latchTriggered = False,
           conduitsVerified = True, sequenceError = False, sequenceErrorExpiresAt = 0 \<rparr>)
   \<and> conduitsInv
       \<lparr> currentState = Puzzle2, nextSequenceIndex = 0, latchTriggered = False,
         conduitsVerified = True, sequenceError = False, sequenceErrorExpiresAt = 0 \<rparr>
   \<and> step (Remote CHR ''A'') initialGame
     = Some ([LogRemoteA, LogAdvanced2],
         \<lparr> currentState = Puzzle2, nextSequenceIndex = 0, latchTriggered = False,
           conduitsVerified = False, sequenceError = False, sequenceErrorExpiresAt = 0 \<rparr>)"
proof -
  have r: "run [Remote CHR ''A'', ConfirmConduits] initialGame
     = Some ([LogRemoteA, LogAdvanced2, LogConduitsConfirmed],
         \<lparr> currentState = Puzzle2, nextSequenceIndex = 0, latchTriggered = False,
           conduitsVerified = True, sequenceError = False, sequenceErrorExpiresAt = 0 \<rparr>)"
    by (simp add: initialGame_def handleRemoteButton_eq advanceToPuzzle_eq
        confirmConduitsAligned_def)
  have reach: "reachable
     \<lparr> currentState = Puzzle2, nextSequenceIndex = 0, latchTriggered = False,
       conduitsVerified = True, sequenceError = False, sequenceErrorExpiresAt = 0 \<rparr>"
    using run_reachable [OF reachable_init r] by simp
  have s1: "step ConfirmConduits
       \<lparr> currentState = Puzzle2, nextSequenceIndex = 0, latchTriggered = False,
         conduitsVerified = False, sequenceError = False, sequenceErrorExpiresAt = 0 \<rparr>
     = Some ([LogConduitsConfirmed],
         \<lparr> currentState = Puzzle2, nextSequenceIndex = 0, latchTriggered = False,
           conduitsVerified = True, sequenceError = False, sequenceErrorExpiresAt = 0 \<rparr>)"
    by (simp add: confirmConduitsAligned_def)
  have s2: "step (Remote CHR ''A'') initialGame
     = Some ([LogRemoteA, LogAdvanced2],
         \<lparr> currentState = Puzzle2, nextSequenceIndex = 0, latchTriggered = False,
           conduitsVerified = False, sequenceError = False, sequenceErrorExpiresAt = 0 \<rparr>)"
    by (simp add: initialGame_def handleRemoteButton_eq advanceToPuzzle_eq)
  have i: "conduitsInv
       \<lparr> currentState = Puzzle2, nextSequenceIndex = 0, latchTriggered = False,
         conduitsVerified = False, sequenceError = False, sequenceErrorExpiresAt = 0 \<rparr>"
    by (simp add: conduitsInv_def)
  show ?thesis
    using reach s1 s2 i
      conduitsVerified_not_in_Puzzle1
        [of "\<lparr> currentState = Puzzle2, nextSequenceIndex = 0, latchTriggered = False,
               conduitsVerified = True, sequenceError = False,
               sequenceErrorExpiresAt = 0 \<rparr>"
            Reset "[]" initialGame, THEN conjunct1]
      conduitsVerified_not_in_Puzzle1
        [of "\<lparr> currentState = Puzzle2, nextSequenceIndex = 0, latchTriggered = False,
               conduitsVerified = False, sequenceError = False,
               sequenceErrorExpiresAt = 0 \<rparr>"
            ConfirmConduits "[LogConduitsConfirmed]"
            "\<lparr> currentState = Puzzle2, nextSequenceIndex = 0, latchTriggered = False,
               conduitsVerified = True, sequenceError = False,
               sequenceErrorExpiresAt = 0 \<rparr>"]
      conduitsVerified_not_in_Puzzle1
        [of initialGame "Remote CHR ''A''" "[LogRemoteA, LogAdvanced2]"
            "\<lparr> currentState = Puzzle2, nextSequenceIndex = 0, latchTriggered = False,
               conduitsVerified = False, sequenceError = False,
               sequenceErrorExpiresAt = 0 \<rparr>"]
    by simp
qed

subsection \<open>The pattern read stays in bounds\<close>

text \<open>
  C10. In every reachable state in stage Puzzle3, \<open>nextSequenceIndex\<close> is below 15, the
  length of the pattern, so the read \<open>BUTTON_SEQUENCE[nextSequenceIndex]\<close> in
  \<open>registerButtonPress\<close> is inside the array: from a reachable state the function always
  returns. Every step keeps the bound: a step that enters Puzzle3 puts the index to 0, and
  the press that brings the index to 15 leaves Puzzle3 for MissionComplete at once.
\<close>

theorem nextSequenceIndex_in_bounds:
  "(reachable g \<and> currentState g = Puzzle3 \<longrightarrow>
      nextSequenceIndex g < 15 \<and> nextSequenceIndex g < length BUTTON_SEQUENCE)
   \<and> (reachable g \<longrightarrow> registerButtonPress b now g \<noteq> None)
   \<and> (indexInv g \<and> step e g = Some (out, g') \<longrightarrow> indexInv g')
   \<and> (step e g = Some (out, g') \<and> currentState g \<noteq> Puzzle3 \<and> currentState g' = Puzzle3 \<longrightarrow>
        nextSequenceIndex g' = 0)
   \<and> (currentState g = Puzzle3 \<and> registerButtonPress b now g = Some (out, g')
        \<and> nextSequenceIndex g' = 15 \<longrightarrow>
        currentState g' = MissionComplete)"
proof -
  have a: "reachable g \<and> currentState g = Puzzle3 \<longrightarrow>
      nextSequenceIndex g < 15 \<and> nextSequenceIndex g < length BUTTON_SEQUENCE"
  proof
    assume h: "reachable g \<and> currentState g = Puzzle3"
    then have "indexInv g" by (simp add: reachable_indexInv)
    with h show "nextSequenceIndex g < 15 \<and> nextSequenceIndex g < length BUTTON_SEQUENCE"
      by (simp add: indexInv_def BUTTON_SEQUENCE_LENGTH_def length_BUTTON_SEQUENCE)
  qed
  have b: "reachable g \<longrightarrow> registerButtonPress b now g \<noteq> None"
  proof
    assume h: "reachable g"
    show "registerButtonPress b now g \<noteq> None"
    proof (cases "currentState g = Puzzle3")
      case True
      with h a have "nextSequenceIndex g < 15" by simp
      with True show ?thesis by (simp add: registerButtonPress_eq)
    next
      case False
      then show ?thesis by (simp add: registerButtonPress_eq)
    qed
  qed
  have s: "index_step g g'" if "step e g = Some (out, g')"
    using step_index [OF that] by simp
  have c: "indexInv g \<and> step e g = Some (out, g') \<longrightarrow> indexInv g'"
    using s by (simp add: index_step_def)
  have d: "step e g = Some (out, g') \<and> currentState g \<noteq> Puzzle3 \<and> currentState g' = Puzzle3
      \<longrightarrow> nextSequenceIndex g' = 0"
    using s by (simp add: index_step_def)
  have e: "currentState g = Puzzle3 \<and> registerButtonPress b now g = Some (out, g')
        \<and> nextSequenceIndex g' = 15 \<longrightarrow> currentState g' = MissionComplete"
    by (auto simp add: registerButtonPress_eq split: if_splits)
  from a b c d e show ?thesis by (intro conjI)
qed

theorem nextSequenceIndex_in_bounds_witness:
  "reachable
     \<lparr> currentState = Puzzle3, nextSequenceIndex = 1, latchTriggered = False,
       conduitsVerified = False, sequenceError = False, sequenceErrorExpiresAt = 0 \<rparr>
   \<and> nextSequenceIndex
       \<lparr> currentState = Puzzle3, nextSequenceIndex = 1, latchTriggered = False,
         conduitsVerified = False, sequenceError = False, sequenceErrorExpiresAt = 0 \<rparr>
       < length BUTTON_SEQUENCE
   \<and> registerButtonPress 1 0
       \<lparr> currentState = Puzzle3, nextSequenceIndex = 1, latchTriggered = False,
         conduitsVerified = False, sequenceError = False, sequenceErrorExpiresAt = 0 \<rparr>
       \<noteq> None
   \<and> step (Advance Puzzle3)
       \<lparr> currentState = Puzzle2, nextSequenceIndex = 7, latchTriggered = False,
         conduitsVerified = False, sequenceError = False, sequenceErrorExpiresAt = 0 \<rparr>
     = Some ([LogAdvanced3],
         \<lparr> currentState = Puzzle3, nextSequenceIndex = 0, latchTriggered = False,
           conduitsVerified = False, sequenceError = False, sequenceErrorExpiresAt = 0 \<rparr>)
   \<and> indexInv
         \<lparr> currentState = Puzzle3, nextSequenceIndex = 0, latchTriggered = False,
           conduitsVerified = False, sequenceError = False, sequenceErrorExpiresAt = 0 \<rparr>
   \<and> registerButtonPress 1 0
       \<lparr> currentState = Puzzle3, nextSequenceIndex = 14, latchTriggered = False,
         conduitsVerified = False, sequenceError = False, sequenceErrorExpiresAt = 0 \<rparr>
     = Some ([LogButtonReceived 1, LogButtonProgress 15 15, LogLatch, LogMissionComplete],
         \<lparr> currentState = MissionComplete, nextSequenceIndex = 15, latchTriggered = True,
           conduitsVerified = False, sequenceError = False, sequenceErrorExpiresAt = 0 \<rparr>)"
proof -
  have r: "run [Remote CHR ''A'', Remote CHR ''B'', PuzzleButton 4 0] initialGame
     = Some ([LogRemoteA, LogAdvanced2, LogRemoteB, LogAdvanced3,
              LogButtonReceived 4, LogButtonProgress 1 15],
         \<lparr> currentState = Puzzle3, nextSequenceIndex = 1, latchTriggered = False,
           conduitsVerified = False, sequenceError = False, sequenceErrorExpiresAt = 0 \<rparr>)"
    by (simp add: initialGame_def handleRemoteButton_eq advanceToPuzzle_eq
        registerButtonPress_eq BUTTON_SEQUENCE_def)
  have reach: "reachable
     \<lparr> currentState = Puzzle3, nextSequenceIndex = 1, latchTriggered = False,
       conduitsVerified = False, sequenceError = False, sequenceErrorExpiresAt = 0 \<rparr>"
    using run_reachable [OF reachable_init r] by simp
  have s: "step (Advance Puzzle3)
       \<lparr> currentState = Puzzle2, nextSequenceIndex = 7, latchTriggered = False,
         conduitsVerified = False, sequenceError = False, sequenceErrorExpiresAt = 0 \<rparr>
     = Some ([LogAdvanced3],
         \<lparr> currentState = Puzzle3, nextSequenceIndex = 0, latchTriggered = False,
           conduitsVerified = False, sequenceError = False, sequenceErrorExpiresAt = 0 \<rparr>)"
    by (simp add: advanceToPuzzle_eq)
  have i: "indexInv
       \<lparr> currentState = Puzzle2, nextSequenceIndex = 7, latchTriggered = False,
         conduitsVerified = False, sequenceError = False, sequenceErrorExpiresAt = 0 \<rparr>"
    by (simp add: indexInv_def)
  have p: "registerButtonPress 1 0
       \<lparr> currentState = Puzzle3, nextSequenceIndex = 14, latchTriggered = False,
         conduitsVerified = False, sequenceError = False, sequenceErrorExpiresAt = 0 \<rparr>
     = Some ([LogButtonReceived 1, LogButtonProgress 15 15, LogLatch, LogMissionComplete],
         \<lparr> currentState = MissionComplete, nextSequenceIndex = 15, latchTriggered = True,
           conduitsVerified = False, sequenceError = False, sequenceErrorExpiresAt = 0 \<rparr>)"
    by (simp add: registerButtonPress_eq BUTTON_SEQUENCE_def)
  show ?thesis
    using reach s i p
      nextSequenceIndex_in_bounds
        [of "\<lparr> currentState = Puzzle3, nextSequenceIndex = 1, latchTriggered = False,
               conduitsVerified = False, sequenceError = False,
               sequenceErrorExpiresAt = 0 \<rparr>" 1 0 Reset "[]" initialGame]
      nextSequenceIndex_in_bounds
        [of "\<lparr> currentState = Puzzle2, nextSequenceIndex = 7, latchTriggered = False,
               conduitsVerified = False, sequenceError = False,
               sequenceErrorExpiresAt = 0 \<rparr>" 1 0
            "Advance Puzzle3" "[LogAdvanced3]"
            "\<lparr> currentState = Puzzle3, nextSequenceIndex = 0, latchTriggered = False,
               conduitsVerified = False, sequenceError = False,
               sequenceErrorExpiresAt = 0 \<rparr>"]
    by simp
qed

subsection \<open>A wrong press and the error flag\<close>

text \<open>
  C4, as the code has it. Times are true milliseconds since boot; the code sees them
  through \<open>millis\<close>. In Puzzle3, with the index inside the pattern, a press at time \<open>t0\<close>
  of a button other than the expected one puts \<open>nextSequenceIndex\<close> to 0, sets the error
  flag and stores the expiry \<open>millis t0 + 2500\<close>, which is the clock value at
  \<open>t0 + 2500\<close>. From then on \<open>isSequenceErrorActive\<close> answers true and changes nothing
  at every time before \<open>t0 + 2500\<close>; at a time from \<open>t0 + 2500\<close> on and less than
  \<open>2 ^ 31\<close> ms after it, it clears the flag and answers false; and once the flag is
  cleared every later query answers false and changes nothing.
\<close>

theorem wrong_press_error_window:
  assumes "currentState g = Puzzle3"
    and "nextSequenceIndex g < 15"
    and "b \<noteq> BUTTON_SEQUENCE ! nextSequenceIndex g"
  shows
    "registerButtonPress b (millis t0) g =
       Some ([LogButtonReceived b, LogButtonIncorrect (BUTTON_SEQUENCE ! nextSequenceIndex g)],
             g\<lparr>nextSequenceIndex := 0, sequenceError := True,
               sequenceErrorExpiresAt := millis t0 + 2500\<rparr>)
     \<and> millis t0 + 2500 = millis (t0 + 2500)
     \<and> (t0 \<le> t \<and> t < t0 + 2500 \<longrightarrow>
          isSequenceErrorActive (millis t)
              (g\<lparr>nextSequenceIndex := 0, sequenceError := True,
                 sequenceErrorExpiresAt := millis t0 + 2500\<rparr>)
            = (True, g\<lparr>nextSequenceIndex := 0, sequenceError := True,
                       sequenceErrorExpiresAt := millis t0 + 2500\<rparr>))
     \<and> (t0 + 2500 \<le> t \<and> t < t0 + 2500 + 2 ^ 31 \<longrightarrow>
          isSequenceErrorActive (millis t)
              (g\<lparr>nextSequenceIndex := 0, sequenceError := True,
                 sequenceErrorExpiresAt := millis t0 + 2500\<rparr>)
            = (False, g\<lparr>nextSequenceIndex := 0, sequenceError := False,
                        sequenceErrorExpiresAt := 0\<rparr>))
     \<and> isSequenceErrorActive now
            (g\<lparr>nextSequenceIndex := 0, sequenceError := False, sequenceErrorExpiresAt := 0\<rparr>)
          = (False, g\<lparr>nextSequenceIndex := 0, sequenceError := False,
                      sequenceErrorExpiresAt := 0\<rparr>)"
proof -
  have e: "millis t0 + 2500 = millis (t0 + 2500)"
    using millis_add_flash [of t0] by (simp add: SEQUENCE_ERROR_FLASH_MS_def)
  have p: "registerButtonPress b (millis t0) g =
       Some ([LogButtonReceived b, LogButtonIncorrect (BUTTON_SEQUENCE ! nextSequenceIndex g)],
             g\<lparr>nextSequenceIndex := 0, sequenceError := True,
               sequenceErrorExpiresAt := millis t0 + 2500\<rparr>)"
    using assms by (simp add: registerButtonPress_eq SEQUENCE_ERROR_FLASH_MS_def)
  have before: "sint (millis t - (millis t0 + 2500)) < 0" if "t0 \<le> t" and "t < t0 + 2500"
  proof -
    have "sint (millis t - millis (t0 + 2500)) = int t - int (t0 + 2500)"
      using that by (intro sint_millis_diff) simp_all
    with that show ?thesis by (simp add: e)
  qed
  have after: "0 \<le> sint (millis t - (millis t0 + 2500))"
    if "t0 + 2500 \<le> t" and "t < t0 + 2500 + 2 ^ 31"
  proof -
    have "sint (millis t - millis (t0 + 2500)) = int t - int (t0 + 2500)"
      using that by (intro sint_millis_diff) simp_all
    with that show ?thesis by (simp add: e)
  qed
  have a: "t0 \<le> t \<and> t < t0 + 2500 \<longrightarrow>
          isSequenceErrorActive (millis t)
              (g\<lparr>nextSequenceIndex := 0, sequenceError := True,
                 sequenceErrorExpiresAt := millis t0 + 2500\<rparr>)
            = (True, g\<lparr>nextSequenceIndex := 0, sequenceError := True,
                       sequenceErrorExpiresAt := millis t0 + 2500\<rparr>)"
  proof
    assume "t0 \<le> t \<and> t < t0 + 2500"
    then have "sint (millis t - (millis t0 + 2500)) < 0"
      using before by simp
    then have "\<not> 0 \<le> sint (millis t - (millis t0 + 2500))"
      by simp
    then show "isSequenceErrorActive (millis t)
              (g\<lparr>nextSequenceIndex := 0, sequenceError := True,
                 sequenceErrorExpiresAt := millis t0 + 2500\<rparr>)
            = (True, g\<lparr>nextSequenceIndex := 0, sequenceError := True,
                       sequenceErrorExpiresAt := millis t0 + 2500\<rparr>)"
      by (simp add: isSequenceErrorActive_def)
  qed
  have c: "t0 + 2500 \<le> t \<and> t < t0 + 2500 + 2 ^ 31 \<longrightarrow>
          isSequenceErrorActive (millis t)
              (g\<lparr>nextSequenceIndex := 0, sequenceError := True,
                 sequenceErrorExpiresAt := millis t0 + 2500\<rparr>)
            = (False, g\<lparr>nextSequenceIndex := 0, sequenceError := False,
                        sequenceErrorExpiresAt := 0\<rparr>)"
  proof
    assume "t0 + 2500 \<le> t \<and> t < t0 + 2500 + 2 ^ 31"
    then have "0 \<le> sint (millis t - (millis t0 + 2500))"
      using after by simp
    then show "isSequenceErrorActive (millis t)
              (g\<lparr>nextSequenceIndex := 0, sequenceError := True,
                 sequenceErrorExpiresAt := millis t0 + 2500\<rparr>)
            = (False, g\<lparr>nextSequenceIndex := 0, sequenceError := False,
                        sequenceErrorExpiresAt := 0\<rparr>)"
      by (simp add: isSequenceErrorActive_def clearSequenceError_def)
  qed
  have d: "isSequenceErrorActive now
            (g\<lparr>nextSequenceIndex := 0, sequenceError := False, sequenceErrorExpiresAt := 0\<rparr>)
          = (False, g\<lparr>nextSequenceIndex := 0, sequenceError := False,
                      sequenceErrorExpiresAt := 0\<rparr>)"
    by (simp add: isSequenceErrorActive_def)
  from p e a c d show ?thesis by (intro conjI)
qed

theorem wrong_press_error_window_witness:
  "registerButtonPress 2 (millis 1000)
       \<lparr> currentState = Puzzle3, nextSequenceIndex = 3, latchTriggered = False,
         conduitsVerified = False, sequenceError = False, sequenceErrorExpiresAt = 0 \<rparr>
     = Some ([LogButtonReceived 2, LogButtonIncorrect 1],
         \<lparr> currentState = Puzzle3, nextSequenceIndex = 0, latchTriggered = False,
           conduitsVerified = False, sequenceError = True, sequenceErrorExpiresAt = 3500 \<rparr>)
   \<and> isSequenceErrorActive (millis 3499)
         \<lparr> currentState = Puzzle3, nextSequenceIndex = 0, latchTriggered = False,
           conduitsVerified = False, sequenceError = True, sequenceErrorExpiresAt = 3500 \<rparr>
     = (True,
         \<lparr> currentState = Puzzle3, nextSequenceIndex = 0, latchTriggered = False,
           conduitsVerified = False, sequenceError = True, sequenceErrorExpiresAt = 3500 \<rparr>)
   \<and> isSequenceErrorActive (millis 3500)
         \<lparr> currentState = Puzzle3, nextSequenceIndex = 0, latchTriggered = False,
           conduitsVerified = False, sequenceError = True, sequenceErrorExpiresAt = 3500 \<rparr>
     = (False,
         \<lparr> currentState = Puzzle3, nextSequenceIndex = 0, latchTriggered = False,
           conduitsVerified = False, sequenceError = False, sequenceErrorExpiresAt = 0 \<rparr>)"
proof -
  have n: "(2 :: uint8) \<noteq> BUTTON_SEQUENCE ! 3"
    by (simp add: BUTTON_SEQUENCE_def)
  have x: "BUTTON_SEQUENCE ! 3 = 1"
    by (simp add: BUTTON_SEQUENCE_def)
  show ?thesis
    using wrong_press_error_window
      [of "\<lparr> currentState = Puzzle3, nextSequenceIndex = 3, latchTriggered = False,
             conduitsVerified = False, sequenceError = False, sequenceErrorExpiresAt = 0 \<rparr>"
          2 1000 3499 0]
      wrong_press_error_window
      [of "\<lparr> currentState = Puzzle3, nextSequenceIndex = 3, latchTriggered = False,
             conduitsVerified = False, sequenceError = False, sequenceErrorExpiresAt = 0 \<rparr>"
          2 1000 3500 0] n x
    by (simp add: millis_def)
qed

text \<open>
  The sentence of the specification fails for a query that comes late. After a wrong press at time 0
  the expiry is 2500; the first query, at time \<open>2500 + 2 ^ 31\<close> (some 24.9 days later, a
  clock value above the expiry), still answers true and leaves the flag set, because the
  wrapped difference is read as negative.
\<close>

theorem late_query_counterexample:
  "registerButtonPress 1 (millis 0)
       \<lparr> currentState = Puzzle3, nextSequenceIndex = 0, latchTriggered = False,
         conduitsVerified = False, sequenceError = False, sequenceErrorExpiresAt = 0 \<rparr>
     = Some ([LogButtonReceived 1, LogButtonIncorrect 4],
         \<lparr> currentState = Puzzle3, nextSequenceIndex = 0, latchTriggered = False,
           conduitsVerified = False, sequenceError = True, sequenceErrorExpiresAt = 2500 \<rparr>)
   \<and> (2500 :: nat) \<le> 2500 + 2 ^ 31
   \<and> (2500 :: ulong) \<le> millis (2500 + 2 ^ 31)
   \<and> isSequenceErrorActive (millis (2500 + 2 ^ 31))
         \<lparr> currentState = Puzzle3, nextSequenceIndex = 0, latchTriggered = False,
           conduitsVerified = False, sequenceError = True, sequenceErrorExpiresAt = 2500 \<rparr>
     = (True,
         \<lparr> currentState = Puzzle3, nextSequenceIndex = 0, latchTriggered = False,
           conduitsVerified = False, sequenceError = True, sequenceErrorExpiresAt = 2500 \<rparr>)"
  by (simp add: registerButtonPress_eq BUTTON_SEQUENCE_def SEQUENCE_ERROR_FLASH_MS_def
      millis_def isSequenceErrorActive_def)

subsection \<open>Entering the whole pattern\<close>

text \<open>
  C3. Start in Puzzle3 with \<open>nextSequenceIndex\<close> 0 and press 4, 1, 5, 1, 3, 5, 4, 2, 1,
  3, 2, 4, 5, 3, 1 one at a time, at any clock values. After the first \<open>k\<close> presses, for
  \<open>k\<close> from 1 to 14, the stage is still Puzzle3, the index is \<open>k\<close> and the error is
  cleared. The fifteenth press brings the index to 15, prints progress 15 of 15, runs
  \<open>completeMission\<close> (whose "mission complete" line is the report of completion) and
  leaves the stage in MissionComplete. Each single correct press in Puzzle3 clears the
  error and adds exactly one to the index.
\<close>

theorem full_pattern_completes:
  assumes "currentState g = Puzzle3" and "nextSequenceIndex g = 0" and "length nows = 15"
  shows
    "(0 < k \<and> k < 15 \<longrightarrow>
        map_option snd
          (run (take k (map2 PuzzleButton [4, 1, 5, 1, 3, 5, 4, 2, 1, 3, 2, 4, 5, 3, 1] nows)) g)
        = Some (g\<lparr>nextSequenceIndex := k, sequenceError := False,
                  sequenceErrorExpiresAt := 0\<rparr>))
     \<and> map_option snd
          (run (map2 PuzzleButton [4, 1, 5, 1, 3, 5, 4, 2, 1, 3, 2, 4, 5, 3, 1] nows) g)
        = Some (g\<lparr>currentState := MissionComplete, nextSequenceIndex := 15,
                  latchTriggered := True, sequenceError := False,
                  sequenceErrorExpiresAt := 0\<rparr>)
     \<and> registerButtonPress 1 (nows ! 14)
          (g\<lparr>nextSequenceIndex := 14, sequenceError := False, sequenceErrorExpiresAt := 0\<rparr>)
        = Some ([LogButtonReceived 1, LogButtonProgress 15 15]
                  @ fst (completeMission
                      (g\<lparr>nextSequenceIndex := 15, sequenceError := False,
                         sequenceErrorExpiresAt := 0\<rparr>)),
                snd (completeMission
                      (g\<lparr>nextSequenceIndex := 15, sequenceError := False,
                         sequenceErrorExpiresAt := 0\<rparr>)))
     \<and> LogMissionComplete \<in> set (fst (completeMission
                      (g\<lparr>nextSequenceIndex := 15, sequenceError := False,
                         sequenceErrorExpiresAt := 0\<rparr>)))
     \<and> (currentState h = Puzzle3 \<and> nextSequenceIndex h < 15 \<longrightarrow>
          (\<exists>out h'. registerButtonPress (BUTTON_SEQUENCE ! nextSequenceIndex h) now h
                       = Some (out, h')
             \<and> nextSequenceIndex h' = nextSequenceIndex h + 1
             \<and> sequenceError h' = False \<and> sequenceErrorExpiresAt h' = 0))"
proof -
  let ?evs = "map2 PuzzleButton BUTTON_SEQUENCE nows"
  let ?g14 = "g\<lparr>nextSequenceIndex := 14, sequenceError := False, sequenceErrorExpiresAt := 0\<rparr>"
  have seq: "[4, 1, 5, 1, 3, 5, 4, 2, 1, 3, 2, 4, 5, 3, 1] = BUTTON_SEQUENCE"
    by (simp add: BUTTON_SEQUENCE_def)
  have l: "length ?evs = 15"
    using assms(3) by (simp add: length_BUTTON_SEQUENCE)
  have last: "BUTTON_SEQUENCE ! 14 = 1"
    by (simp add: BUTTON_SEQUENCE_def)
  have a: "0 < k \<and> k < 15 \<longrightarrow>
        map_option snd (run (take k ?evs) g)
        = Some (g\<lparr>nextSequenceIndex := k, sequenceError := False,
                  sequenceErrorExpiresAt := 0\<rparr>)"
  proof
    assume h: "0 < k \<and> k < 15"
    then have "k < 15" and "k \<noteq> 0" by simp_all
    with run_pattern_prefix [OF assms, of k]
    show "map_option snd (run (take k ?evs) g)
        = Some (g\<lparr>nextSequenceIndex := k, sequenceError := False,
                  sequenceErrorExpiresAt := 0\<rparr>)"
      by simp
  qed
  have p: "registerButtonPress (BUTTON_SEQUENCE ! 14) (nows ! 14) ?g14
        = Some ([LogButtonReceived (BUTTON_SEQUENCE ! 14), LogButtonProgress 15 15]
                   @ fst (completeMission
                       (?g14\<lparr>nextSequenceIndex := 15, sequenceError := False,
                          sequenceErrorExpiresAt := 0\<rparr>)),
                 ?g14\<lparr>currentState := MissionComplete, nextSequenceIndex := 15,
                   latchTriggered := True, sequenceError := False,
                   sequenceErrorExpiresAt := 0\<rparr>)"
    using assms(1) by (intro registerButtonPress_last) simp_all
  have b: "map_option snd (run ?evs g)
        = Some (g\<lparr>currentState := MissionComplete, nextSequenceIndex := 15,
                  latchTriggered := True, sequenceError := False,
                  sequenceErrorExpiresAt := 0\<rparr>)"
  proof -
    have "14 < length ?evs"
      by (simp only: l)
    then have "take (Suc 14) ?evs = take 14 ?evs @ [?evs ! 14]"
      by (rule take_Suc_conv_app_nth)
    moreover have "take (Suc 14) ?evs = ?evs"
      by (rule take_all) (simp only: l)
    moreover have "?evs ! 14 = PuzzleButton (BUTTON_SEQUENCE ! 14) (nows ! 14)"
      using assms(3) by (simp add: length_BUTTON_SEQUENCE)
    ultimately have t: "?evs = take 14 ?evs @ [PuzzleButton (BUTTON_SEQUENCE ! 14) (nows ! 14)]"
      by (simp only:)
    from run_pattern_prefix [OF assms, of 14] obtain out where
      r: "run (take 14 ?evs) g = Some (out, ?g14)"
      by auto
    have "map_option snd
        (run (take 14 ?evs @ [PuzzleButton (BUTTON_SEQUENCE ! 14) (nows ! 14)]) g)
        = Some (g\<lparr>currentState := MissionComplete, nextSequenceIndex := 15,
                  latchTriggered := True, sequenceError := False,
                  sequenceErrorExpiresAt := 0\<rparr>)"
      unfolding run_snoc r using p by simp
    with t show ?thesis by simp
  qed
  have c: "registerButtonPress 1 (nows ! 14) ?g14
        = Some ([LogButtonReceived 1, LogButtonProgress 15 15]
                  @ fst (completeMission
                      (g\<lparr>nextSequenceIndex := 15, sequenceError := False,
                         sequenceErrorExpiresAt := 0\<rparr>)),
                snd (completeMission
                      (g\<lparr>nextSequenceIndex := 15, sequenceError := False,
                         sequenceErrorExpiresAt := 0\<rparr>)))"
    using p by (simp add: last completeMission_eq)
  have d: "LogMissionComplete \<in> set (fst (completeMission
                      (g\<lparr>nextSequenceIndex := 15, sequenceError := False,
                         sequenceErrorExpiresAt := 0\<rparr>)))"
    by (simp add: completeMission_eq)
  have e: "currentState h = Puzzle3 \<and> nextSequenceIndex h < 15 \<longrightarrow>
          (\<exists>out h'. registerButtonPress (BUTTON_SEQUENCE ! nextSequenceIndex h) now h
                       = Some (out, h')
             \<and> nextSequenceIndex h' = nextSequenceIndex h + 1
             \<and> sequenceError h' = False \<and> sequenceErrorExpiresAt h' = 0)"
    by (simp add: registerButtonPress_eq)
  from a b c d e show ?thesis
    unfolding seq by (intro conjI)
qed

theorem full_pattern_completes_witness:
  "map_option snd
     (run (take 3 (map2 PuzzleButton [4, 1, 5, 1, 3, 5, 4, 2, 1, 3, 2, 4, 5, 3, 1]
                     [10, 20, 30, 40, 50, 60, 70, 80, 90, 100, 110, 120, 130, 140, 150]))
        \<lparr> currentState = Puzzle3, nextSequenceIndex = 0, latchTriggered = False,
          conduitsVerified = True, sequenceError = True, sequenceErrorExpiresAt = 77 \<rparr>)
     = Some \<lparr> currentState = Puzzle3, nextSequenceIndex = 3, latchTriggered = False,
              conduitsVerified = True, sequenceError = False, sequenceErrorExpiresAt = 0 \<rparr>
   \<and> map_option snd
     (run (map2 PuzzleButton [4, 1, 5, 1, 3, 5, 4, 2, 1, 3, 2, 4, 5, 3, 1]
             [10, 20, 30, 40, 50, 60, 70, 80, 90, 100, 110, 120, 130, 140, 150])
        \<lparr> currentState = Puzzle3, nextSequenceIndex = 0, latchTriggered = False,
          conduitsVerified = True, sequenceError = True, sequenceErrorExpiresAt = 77 \<rparr>)
     = Some \<lparr> currentState = MissionComplete, nextSequenceIndex = 15, latchTriggered = True,
              conduitsVerified = True, sequenceError = False, sequenceErrorExpiresAt = 0 \<rparr>
   \<and> (\<exists>out h'. registerButtonPress 5 9
          \<lparr> currentState = Puzzle3, nextSequenceIndex = 2, latchTriggered = False,
            conduitsVerified = True, sequenceError = True, sequenceErrorExpiresAt = 77 \<rparr>
         = Some (out, h')
        \<and> nextSequenceIndex h' = 3 \<and> sequenceError h' = False
        \<and> sequenceErrorExpiresAt h' = 0)"
proof -
  have x: "BUTTON_SEQUENCE ! 2 = 5"
    by (simp add: BUTTON_SEQUENCE_def)
  show ?thesis
    using full_pattern_completes
      [of "\<lparr> currentState = Puzzle3, nextSequenceIndex = 0, latchTriggered = False,
             conduitsVerified = True, sequenceError = True, sequenceErrorExpiresAt = 77 \<rparr>"
          "[10, 20, 30, 40, 50, 60, 70, 80, 90, 100, 110, 120, 130, 140, 150]"
          3
          "\<lparr> currentState = Puzzle3, nextSequenceIndex = 2, latchTriggered = False,
             conduitsVerified = True, sequenceError = True, sequenceErrorExpiresAt = 77 \<rparr>"
          9] x
    by simp
qed

end
